theory Spec2Isabelle
  imports Complex_Main
begin

section \<open>Data model\<close>

text \<open>
  The ground-state solver of the quantum-dot array simulator, embedded function by
  function. numpy's float64 vectors are lists of reals (exact arithmetic, no NaN and
  no rounding error), integer vectors are lists of ints, a matrix is the list of its
  rows. Every Python exception is a value of \<open>error\<close>; a function that can raise
  returns \<open>error + 'a\<close> with \<open>Inl\<close> for the exception.
\<close>

datatype error =
    ValueError string
  | AssertionError string
  | IndexError string
  | AxisError string

subsection \<open>itertools.product with repeat\<close>

text \<open>
  \<open>product(xs, repeat=k)\<close>: all tuples of length \<open>k\<close> over \<open>xs\<close>, in the order
  itertools generates them (the first position varies slowest).
\<close>

fun product :: "'a list \<Rightarrow> nat \<Rightarrow> 'a list list" where
  "product xs 0 = [[]]"
| "product xs (Suc k) = concat (map (\<lambda>x. map (\<lambda>t. x # t) (product xs k)) xs)"

section \<open>Configuration generator (closed dots)\<close>




section \<open>Integer corrector\<close>

subsection \<open>numpy primitives\<close>

definition np_floor :: "real \<Rightarrow> real" where
  "np_floor x = of_int \<lfloor>x\<rfloor>"

definition np_ceil :: "real \<Rightarrow> real" where
  "np_ceil x = of_int \<lceil>x\<rceil>"

text \<open>\<open>np.rint\<close>: nearest integer, a tie going to the even neighbour.\<close>

definition rint :: "real \<Rightarrow> real" where
  "rint x =
     (let f = \<lfloor>x\<rfloor>; r = x - of_int f in
      if r < 1 / 2 then of_int f
      else if 1 / 2 < r then of_int (f + 1)
      else if even f then of_int f else of_int (f + 1))"

text \<open>
  \<open>np.argmin\<close> of a one-dimensional array: the index of the first smallest entry; an
  empty array is refused. The scan keeps the best index and value seen so far.
\<close>

fun argmin_scan :: "nat \<Rightarrow> real \<Rightarrow> nat \<Rightarrow> real list \<Rightarrow> nat" where
  "argmin_scan best_i best_v i [] = best_i"
| "argmin_scan best_i best_v i (x # xs) =
     (if x < best_v then argmin_scan i x (Suc i) xs
      else argmin_scan best_i best_v (Suc i) xs)"

definition argmin :: "real list \<Rightarrow> error + nat" where
  "argmin F =
     (case F of
        [] \<Rightarrow> Inl (ValueError ''attempt to get argmin of an empty sequence'')
      | x # xs \<Rightarrow> Inr (argmin_scan 0 x 1 xs))"

text \<open>\<open>np.argsort\<close> and \<open>np.searchsorted(a, v, side='right')\<close> on a sorted array.\<close>

definition argsort :: "real list \<Rightarrow> nat list" where
  "argsort xs = sort_key (\<lambda>j. xs ! j) [0..<length xs]"

definition searchsorted_right :: "real list \<Rightarrow> real \<Rightarrow> nat" where
  "searchsorted_right a v = length (takeWhile (\<lambda>x. x \<le> v) a)"

subsection \<open>Free energy\<close>

text \<open>
  One term of \<open>np.einsum('...i, ij, ...j', d, cdd_inv, d)\<close>: the quadratic form
  \<open>\<Sum>i j. d\<^sub>i * cdd_inv\<^sub>i\<^sub>j * d\<^sub>j\<close>.
\<close>

definition quad_form :: "real list list \<Rightarrow> real list \<Rightarrow> real" where
  "quad_form m d =
     sum_list (map (\<lambda>i. sum_list (map (\<lambda>j. d ! i * (m ! i ! j) * d ! j) [0..<length d]))
                   [0..<length d])"

text \<open>
  \<open>F = np.einsum('...i, ij, ...j', n_list - n_continuous, cdd_inv, n_list - n_continuous)\<close>:
  one energy per row of \<open>n_list\<close>. The subtraction and the contraction need every row
  to have the length of \<open>n_continuous\<close> and \<open>cdd_inv\<close> to be square of that size.
\<close>

definition free_energy :: "real list list \<Rightarrow> real list list \<Rightarrow> real list \<Rightarrow> error + real list" where
  "free_energy n_list cdd_inv n_continuous =
     (if (\<forall>row \<in> set n_list. length row = length n_continuous) \<and>
         length cdd_inv = length n_continuous \<and>
         (\<forall>r \<in> set cdd_inv. length r = length n_continuous)
      then Inr (map (\<lambda>row. quad_form cdd_inv (map2 (-) row n_continuous)) n_list)
      else Inl (ValueError ''operands could not be broadcast together''))"

text \<open>\<open>return n_list[np.argmin(F), :]\<close>\<close>

definition select_argmin :: "real list list \<Rightarrow> real list list \<Rightarrow> real list \<Rightarrow> error + real list" where
  "select_argmin n_list cdd_inv n_continuous =
     (case free_energy n_list cdd_inv n_continuous of
        Inl e \<Rightarrow> Inl e
      | Inr F \<Rightarrow> (case argmin F of Inl e \<Rightarrow> Inl e | Inr i \<Rightarrow> Inr (n_list ! i)))"

subsection \<open>Candidate rows\<close>

text \<open>
  One row of \<open>n_list\<close>. The row starts as \<open>np.zeros(...) * np.nan\<close>; the reals have no
  NaN, so the initial fill is the parameter \<open>nan\<close>. The first loop writes the floor or
  ceiling chosen by \<open>ops\<close> at the branched dots, the second writes \<open>np.rint\<close> at the
  others.
\<close>

definition fill_row :: "real \<Rightarrow> real list \<Rightarrow> nat list \<Rightarrow> nat list \<Rightarrow> (real \<Rightarrow> real) list \<Rightarrow> real list" where
  "fill_row nan n_continuous floor_ceil_args round_args ops =
     (let row0 = replicate (length n_continuous) nan;
          row1 = foldl (\<lambda>row (j, operation). row[j := operation (n_continuous ! j)])
                       row0 (zip floor_ceil_args ops);
          row2 = foldl (\<lambda>row j. row[j := rint (n_continuous ! j)]) row1 round_args
      in row2)"

definition candidate_rows :: "real \<Rightarrow> real list \<Rightarrow> nat list \<Rightarrow> nat list \<Rightarrow> real list list" where
  "candidate_rows nan n_continuous floor_ceil_args round_args =
     (let floor_ceil_list = product [np_floor, np_ceil] (length floor_ceil_args)
      in map (fill_row nan n_continuous floor_ceil_args round_args) floor_ceil_list)"

subsection \<open>Open dots\<close>

text \<open>\<open>compute_argmin_open(n_continuous, threshold, cdd_inv)\<close>\<close>

definition compute_argmin_open :: "real \<Rightarrow> real list \<Rightarrow> real \<Rightarrow> real list list \<Rightarrow> error + real list" where
  "compute_argmin_open nan n_continuous threshold cdd_inv =
     (let n_remainder = map (\<lambda>x. x - np_floor x) n_continuous;
          args = [0..<length n_continuous];
          floor_ceil_args = filter (\<lambda>j. \<bar>n_remainder ! j - 1 / 2\<bar> < threshold / 2) args;
          round_args = filter (\<lambda>j. j \<notin> set floor_ceil_args) args;
          n_list = candidate_rows nan n_continuous floor_ceil_args round_args
      in select_argmin n_list cdd_inv n_continuous)"

subsection \<open>Closed dots\<close>

text \<open>
  \<open>compute_argmin_closed(n_continuous, threshold, cdd_inv, n_charge=None)\<close>. With
  \<open>n_charge\<close> given the candidates come from
  \<open>compute_charge_configuration_brute_force\<close>, which is imported from a module that is
  not part of the sources at hand: it is the parameter \<open>brute_force\<close>. In the other
  branch the source computes \<open>args\<close> by \<open>np.argsort\<close> and then assigns
  \<open>np.arange\<close> to the same name; the second binding shadows the first here as there.
\<close>

definition compute_argmin_closed ::
  "(int \<Rightarrow> nat \<Rightarrow> int list \<Rightarrow> error + real list list) \<Rightarrow> real \<Rightarrow> real list \<Rightarrow> real \<Rightarrow>
   real list list \<Rightarrow> int option \<Rightarrow> error + real list" where
  "compute_argmin_closed brute_force nan n_continuous threshold cdd_inv n_charge =
     (let n_remainder = map (\<lambda>x. x - np_floor x) n_continuous in
      case n_charge of
        None \<Rightarrow>
          (let delta = map (\<lambda>r. \<bar>r - 1 / 2\<bar>) n_remainder;
               args = argsort delta;
               sorted_delta = sort delta;
               threshold_index = searchsorted_right sorted_delta (threshold / 2);
               threshold_index = max threshold_index (min (length cdd_inv) 3);
               args = [0..<length n_continuous];
               floor_ceil_args = filter (\<lambda>a. a < threshold_index) args;
               round_args = filter (\<lambda>j. j \<notin> set floor_ceil_args) args;
               n_list = candidate_rows nan n_continuous floor_ceil_args round_args
           in select_argmin n_list cdd_inv n_continuous)
      | Some n_charge \<Rightarrow>
          (let lower_limits = map floor n_continuous;
               upper_limits = map ceiling n_continuous
           in case brute_force n_charge (length cdd_inv) lower_limits of
                Inl e \<Rightarrow> Inl e
              | Inr n_list \<Rightarrow> select_argmin n_list cdd_inv n_continuous))"

section \<open>Batch ground-state solver (Python core)\<close>

subsection \<open>Matrix products\<close>

text \<open>
  \<open>a @ b\<close> for a matrix and a vector, and for two matrices; numpy refuses operands
  whose inner dimensions differ.
\<close>

definition matvec :: "real list list \<Rightarrow> real list \<Rightarrow> error + real list" where
  "matvec a v =
     (if \<forall>r \<in> set a. length r = length v
      then Inr (map (\<lambda>r. sum_list (map2 (*) r v)) a)
      else Inl (ValueError ''matmul: Input operand 1 has a mismatch in its core dimension 0''))"

definition matmul :: "real list list \<Rightarrow> real list list \<Rightarrow> error + real list list" where
  "matmul a b =
     (if (\<forall>r \<in> set a. length r = length b) \<and> (\<forall>r \<in> set b. \<forall>s \<in> set b. length r = length s)
      then Inr (map (\<lambda>r. map (\<lambda>c. sum_list (map2 (*) r c)) (transpose b)) a)
      else Inl (ValueError ''matmul: Input operand 1 has a mismatch in its core dimension 0''))"

text \<open>\<open>-cdd_inv @ cgd @ vg\<close>: the negation binds first, the products associate to the left.\<close>

definition linear_term :: "real list list \<Rightarrow> real list list \<Rightarrow> real list \<Rightarrow> error + real list" where
  "linear_term cdd_inv cgd vg =
     (case matmul (map (map uminus) cdd_inv) cgd of
        Inl e \<Rightarrow> Inl e
      | Inr m \<Rightarrow> matvec m vg)"

subsection \<open>The quadratic-program solver\<close>

text \<open>
  OSQP is an external library. It is represented by its interface: \<open>prob.setup\<close> builds a
  solver object from \<open>P, q, A, l, u\<close>, \<open>update\<close> replaces the linear term, and \<open>solve\<close>
  returns \<open>res.x\<close> together with the solver object, whose warm-start state the call
  may have changed. The solver object owns copies of the data it is given
  (\<open>sparse.csc_matrix\<close> builds new arrays).
\<close>

record 'p osqp =
  osqp_setup :: "real list list \<Rightarrow> real list \<Rightarrow> real list list \<Rightarrow> real list \<Rightarrow> real list \<Rightarrow> 'p"
  osqp_update :: "'p \<Rightarrow> real list \<Rightarrow> 'p"
  osqp_solve :: "'p \<Rightarrow> real list \<times> 'p"

text \<open>\<open>np.eye\<close> and \<open>cgd.shape[-1]\<close> for a matrix given by its rows.\<close>

definition eye :: "nat \<Rightarrow> real list list" where
  "eye dim' = map (\<lambda>i. map (\<lambda>j. if i = j then 1 else 0) [0..<dim']) [0..<dim']"

definition n_cols :: "real list list \<Rightarrow> nat" where
  "n_cols m = (case m of [] \<Rightarrow> 0 | r # _ \<Rightarrow> length r)"

text \<open>\<open>init_osqp_problem(cdd_inv, cgd, n_charge=None)\<close>\<close>

definition init_osqp_problem ::
  "'p osqp \<Rightarrow> real list list \<Rightarrow> real list list \<Rightarrow> int option \<Rightarrow> error + 'p" where
  "init_osqp_problem lib cdd_inv cgd n_charge =
     (let dim' = length cdd_inv; P = cdd_inv in
      case linear_term cdd_inv cgd (replicate (n_cols cgd) 0) of
        Inl e \<Rightarrow> Inl e
      | Inr q \<Rightarrow>
          (case n_charge of
             Some n_charge \<Rightarrow>
               (let l = of_int n_charge # replicate dim' 0;
                    u = replicate (dim' + 1) (of_int n_charge);
                    A = replicate dim' 1 # eye dim'
                in Inr (osqp_setup lib P q A l u))
           | None \<Rightarrow>
               (let l = replicate dim' 0;
                    u = replicate dim' 100;
                    A = eye dim'
                in Inr (osqp_setup lib P q A l u))))"

subsection \<open>One voltage vector\<close>

text \<open>
  \<open>_ground_state_open_0d\<close> and \<open>_ground_state_closed_0d\<close>. Each returns the result (or
  the exception) together with the solver object as the call leaves it.
  \<open>np.clip(x, 0, None)\<close> is \<open>max 0\<close>; \<open>np.clip(x, 0, n_charge)\<close> is
  \<open>min n_charge \<circ> max 0\<close>.
\<close>

definition ground_state_open_0d ::
  "'p osqp \<Rightarrow> real \<Rightarrow> real list \<Rightarrow> real list list \<Rightarrow> real list list \<Rightarrow> real \<Rightarrow> 'p \<Rightarrow>
   (error + real list) \<times> 'p" where
  "ground_state_open_0d lib nan vg cgd cdd_inv threshold prob =
     (case linear_term cdd_inv cgd vg of
        Inl e \<Rightarrow> (Inl e, prob)
      | Inr q \<Rightarrow>
          (let prob1 = osqp_update lib prob q;
               (x, prob2) = osqp_solve lib prob1;
               n_continuous = map (max 0) x
           in (compute_argmin_open nan n_continuous threshold cdd_inv, prob2)))"

definition ground_state_closed_0d ::
  "'p osqp \<Rightarrow> (int \<Rightarrow> nat \<Rightarrow> int list \<Rightarrow> error + real list list) \<Rightarrow> real \<Rightarrow> real list \<Rightarrow> int \<Rightarrow>
   real list list \<Rightarrow> real list list \<Rightarrow> real \<Rightarrow> 'p \<Rightarrow> (error + real list) \<times> 'p" where
  "ground_state_closed_0d lib brute_force nan vg n_charge cgd cdd_inv threshold prob =
     (case linear_term cdd_inv cgd vg of
        Inl e \<Rightarrow> (Inl e, prob)
      | Inr q \<Rightarrow>
          (let prob1 = osqp_update lib prob q;
               (x, prob2) = osqp_solve lib prob1;
               n_continuous = map (\<lambda>v. min (max v 0) (of_int n_charge)) x
           in (compute_argmin_closed brute_force nan n_continuous threshold cdd_inv (Some n_charge),
               prob2)))"

subsection \<open>The batch\<close>

text \<open>
  \<open>list(map(f, vg))\<close> with the one solver object shared by all calls: the vectors are
  solved in order, the solver object is threaded through, and the first exception
  ends the batch.
\<close>

fun map_solve :: "('v \<Rightarrow> 'p \<Rightarrow> (error + 'r) \<times> 'p) \<Rightarrow> 'v list \<Rightarrow> 'p \<Rightarrow> error + 'r list" where
  "map_solve f [] prob = Inr []"
| "map_solve f (v # vs) prob =
     (case f v prob of
        (Inl e, _) \<Rightarrow> Inl e
      | (Inr row, prob') \<Rightarrow>
          (case map_solve f vs prob' of Inl e \<Rightarrow> Inl e | Inr rows \<Rightarrow> Inr (row # rows)))"

text \<open>\<open>ground_state_open_python(vg, cgd, cdd_inv, threshold)\<close>\<close>

definition ground_state_open_python ::
  "'p osqp \<Rightarrow> real \<Rightarrow> real list list \<Rightarrow> real list list \<Rightarrow> real list list \<Rightarrow> real \<Rightarrow>
   error + real list list" where
  "ground_state_open_python lib nan vg cgd cdd_inv threshold =
     (case init_osqp_problem lib cdd_inv cgd None of
        Inl e \<Rightarrow> Inl e
      | Inr prob \<Rightarrow>
          map_solve (\<lambda>v. ground_state_open_0d lib nan v cgd cdd_inv threshold) vg prob)"


section \<open>The Python core over an explicit store\<close>

text \<open>
  The capacitance matrices and the voltage batch are numpy arrays that the caller
  owns and passes by reference; a callee could change them by an assignment into the
  array. To state that none does, the Python core is written a second time with the
  arrays in a store. An object of the store is a vector or a matrix; \<open>next_addr\<close> is
  the first address not yet in use. Every array the code assigns into (\<open>n_list\<close>)
  and every array it returns to the caller lives in the store; arrays that are
  created by an expression and only read afterwards are values, as before. The OSQP
  object works on the copies it was given (\<open>sparse.csc_matrix(cdd_inv)\<close> and the
  freshly computed \<open>q\<close>) and has no access to the store.
\<close>

datatype obj = Vec "real list" | Mat "real list list"

record store =
  cells :: "nat \<Rightarrow> obj option"
  next_addr :: nat

text \<open>A new array object.\<close>

definition alloc :: "obj \<Rightarrow> store \<Rightarrow> nat \<times> store" where
  "alloc v h = (next_addr h, h\<lparr>cells := (cells h)(next_addr h \<mapsto> v), next_addr := Suc (next_addr h)\<rparr>)"

text \<open>Reading a matrix or a vector through its address.\<close>

definition get_mat :: "nat \<Rightarrow> store \<Rightarrow> real list list" where
  "get_mat a h = (case cells h a of Some (Mat rows) \<Rightarrow> rows | _ \<Rightarrow> [])"

text \<open>The assignment \<open>n_list[i, j] = x\<close> into the matrix at address \<open>a\<close>.\<close>

definition set_item :: "nat \<Rightarrow> nat \<Rightarrow> nat \<Rightarrow> real \<Rightarrow> store \<Rightarrow> store" where
  "set_item a i j x h =
     (case cells h a of
        Some (Mat rows) \<Rightarrow> h\<lparr>cells := (cells h)(a \<mapsto> Mat (rows[i := (rows ! i)[j := x]]))\<rparr>
      | _ \<Rightarrow> h)"

text \<open>
  The body of \<open>for i, ops in enumerate(floor_ceil_list)\<close>: the two inner loops assign
  into row \<open>i\<close> of \<open>n_list\<close>.
\<close>

definition fill_row_st ::
  "nat \<Rightarrow> real list \<Rightarrow> nat list \<Rightarrow> nat list \<Rightarrow> store \<Rightarrow> nat \<times> (real \<Rightarrow> real) list \<Rightarrow> store" where
  "fill_row_st n_list n_continuous floor_ceil_args round_args h iops =
     (let i = fst iops; ops = snd iops;
          h1 = foldl (\<lambda>h (j, operation). set_item n_list i j (operation (n_continuous ! j)) h)
                     h (zip floor_ceil_args ops);
          h2 = foldl (\<lambda>h j. set_item n_list i j (rint (n_continuous ! j)) h) h1 round_args
      in h2)"

text \<open>
  \<open>n_list = np.zeros(shape=(2 ** k, n)) * np.nan\<close> followed by the loops; the address of
  \<open>n_list\<close> and the store after the loops.
\<close>

definition candidate_rows_st ::
  "real \<Rightarrow> real list \<Rightarrow> nat list \<Rightarrow> nat list \<Rightarrow> store \<Rightarrow> nat \<times> store" where
  "candidate_rows_st nan n_continuous floor_ceil_args round_args h =
     (let (n_list, h1) = alloc (Mat (replicate (2 ^ length floor_ceil_args)
                                        (replicate (length n_continuous) nan))) h;
          floor_ceil_list = product [np_floor, np_ceil] (length floor_ceil_args);
          h2 = foldl (fill_row_st n_list n_continuous floor_ceil_args round_args) h1
                     (enumerate 0 floor_ceil_list)
      in (n_list, h2))"

text \<open>\<open>compute_argmin_open\<close> with \<open>cdd_inv\<close> given by its address.\<close>

definition compute_argmin_open_st ::
  "real \<Rightarrow> real list \<Rightarrow> real \<Rightarrow> nat \<Rightarrow> store \<Rightarrow> (error + real list) \<times> store" where
  "compute_argmin_open_st nan n_continuous threshold cdd_inv h =
     (let n_remainder = map (\<lambda>x. x - np_floor x) n_continuous;
          args = [0..<length n_continuous];
          floor_ceil_args = filter (\<lambda>j. \<bar>n_remainder ! j - 1 / 2\<bar> < threshold / 2) args;
          round_args = filter (\<lambda>j. j \<notin> set floor_ceil_args) args;
          (n_list, h') = candidate_rows_st nan n_continuous floor_ceil_args round_args h
      in (select_argmin (get_mat n_list h') (get_mat cdd_inv h') n_continuous, h'))"

text \<open>\<open>compute_argmin_closed\<close> with \<open>cdd_inv\<close> given by its address.\<close>

definition compute_argmin_closed_st ::
  "(int \<Rightarrow> nat \<Rightarrow> int list \<Rightarrow> error + real list list) \<Rightarrow> real \<Rightarrow> real list \<Rightarrow> real \<Rightarrow>
   nat \<Rightarrow> int option \<Rightarrow> store \<Rightarrow> (error + real list) \<times> store" where
  "compute_argmin_closed_st brute_force nan n_continuous threshold cdd_inv n_charge h =
     (let n_remainder = map (\<lambda>x. x - np_floor x) n_continuous in
      case n_charge of
        None \<Rightarrow>
          (let delta = map (\<lambda>r. \<bar>r - 1 / 2\<bar>) n_remainder;
               args = argsort delta;
               sorted_delta = sort delta;
               threshold_index = searchsorted_right sorted_delta (threshold / 2);
               threshold_index = max threshold_index (min (length (get_mat cdd_inv h)) 3);
               args = [0..<length n_continuous];
               floor_ceil_args = filter (\<lambda>a. a < threshold_index) args;
               round_args = filter (\<lambda>j. j \<notin> set floor_ceil_args) args;
               (n_list, h') = candidate_rows_st nan n_continuous floor_ceil_args round_args h
           in (select_argmin (get_mat n_list h') (get_mat cdd_inv h') n_continuous, h'))
      | Some n_charge \<Rightarrow>
          (let lower_limits = map floor n_continuous;
               upper_limits = map ceiling n_continuous
           in case brute_force n_charge (length (get_mat cdd_inv h)) lower_limits of
                Inl e \<Rightarrow> (Inl e, h)
              | Inr n_list \<Rightarrow> (select_argmin n_list (get_mat cdd_inv h) n_continuous, h)))"

text \<open>
  \<open>_ground_state_open_0d\<close> and \<open>_ground_state_closed_0d\<close>: the voltage vector is a row
  of the batch, the matrices are read through their addresses.
\<close>

definition ground_state_open_0d_st ::
  "'p osqp \<Rightarrow> real \<Rightarrow> real list \<Rightarrow> nat \<Rightarrow> nat \<Rightarrow> real \<Rightarrow> 'p \<Rightarrow> store \<Rightarrow>
   ((error + real list) \<times> 'p) \<times> store" where
  "ground_state_open_0d_st lib nan vg cgd cdd_inv threshold prob h =
     (case linear_term (get_mat cdd_inv h) (get_mat cgd h) vg of
        Inl e \<Rightarrow> ((Inl e, prob), h)
      | Inr q \<Rightarrow>
          (let prob1 = osqp_update lib prob q;
               (x, prob2) = osqp_solve lib prob1;
               n_continuous = map (max 0) x;
               (r, h') = compute_argmin_open_st nan n_continuous threshold cdd_inv h
           in ((r, prob2), h')))"

definition ground_state_closed_0d_st ::
  "'p osqp \<Rightarrow> (int \<Rightarrow> nat \<Rightarrow> int list \<Rightarrow> error + real list list) \<Rightarrow> real \<Rightarrow> real list \<Rightarrow> int \<Rightarrow>
   nat \<Rightarrow> nat \<Rightarrow> real \<Rightarrow> 'p \<Rightarrow> store \<Rightarrow> ((error + real list) \<times> 'p) \<times> store" where
  "ground_state_closed_0d_st lib brute_force nan vg n_charge cgd cdd_inv threshold prob h =
     (case linear_term (get_mat cdd_inv h) (get_mat cgd h) vg of
        Inl e \<Rightarrow> ((Inl e, prob), h)
      | Inr q \<Rightarrow>
          (let prob1 = osqp_update lib prob q;
               (x, prob2) = osqp_solve lib prob1;
               n_continuous = map (\<lambda>v. min (max v 0) (of_int n_charge)) x;
               (r, h') = compute_argmin_closed_st brute_force nan n_continuous threshold cdd_inv
                           (Some n_charge) h
           in ((r, prob2), h')))"

text \<open>
  \<open>list(map(f, vg))\<close>: row \<open>i\<close> of the batch is read from the store when its turn comes;
  the solver object and the store are threaded through.
\<close>

fun map_solve_st ::
  "(real list \<Rightarrow> 'p \<Rightarrow> store \<Rightarrow> ((error + 'r) \<times> 'p) \<times> store) \<Rightarrow> nat \<Rightarrow> nat list \<Rightarrow> 'p \<Rightarrow> store \<Rightarrow>
   (error + 'r list) \<times> store" where
  "map_solve_st f vg [] prob h = (Inr [], h)"
| "map_solve_st f vg (i # rest) prob h =
     (case f (get_mat vg h ! i) prob h of
        ((Inl e, _), h') \<Rightarrow> (Inl e, h')
      | ((Inr row, prob'), h') \<Rightarrow>
          (case map_solve_st f vg rest prob' h' of
             (Inl e, h'') \<Rightarrow> (Inl e, h'')
           | (Inr rows, h'') \<Rightarrow> (Inr (row # rows), h'')))"

text \<open>\<open>VectorList(list(N))\<close>: the rows collected become a new array, whose address is returned.\<close>

definition vector_list :: "(error + real list list) \<times> store \<Rightarrow> (error + nat) \<times> store" where
  "vector_list r =
     (case r of
        (Inl e, h) \<Rightarrow> (Inl e, h)
      | (Inr rows, h) \<Rightarrow> (let (a, h') = alloc (Mat rows) h in (Inr a, h')))"

text \<open>\<open>ground_state_open_python\<close> and \<open>ground_state_closed_python\<close> on addresses.\<close>

definition ground_state_open_python_st ::
  "'p osqp \<Rightarrow> real \<Rightarrow> nat \<Rightarrow> nat \<Rightarrow> nat \<Rightarrow> real \<Rightarrow> store \<Rightarrow> (error + nat) \<times> store" where
  "ground_state_open_python_st lib nan vg cgd cdd_inv threshold h =
     (case init_osqp_problem lib (get_mat cdd_inv h) (get_mat cgd h) None of
        Inl e \<Rightarrow> (Inl e, h)
      | Inr prob \<Rightarrow>
          vector_list
            (map_solve_st (\<lambda>v. ground_state_open_0d_st lib nan v cgd cdd_inv threshold)
               vg [0..<length (get_mat vg h)] prob h))"

definition ground_state_closed_python_st ::
  "'p osqp \<Rightarrow> (int \<Rightarrow> nat \<Rightarrow> int list \<Rightarrow> error + real list list) \<Rightarrow> real \<Rightarrow> nat \<Rightarrow> int \<Rightarrow>
   nat \<Rightarrow> nat \<Rightarrow> nat \<Rightarrow> real \<Rightarrow> store \<Rightarrow> (error + nat) \<times> store" where
  "ground_state_closed_python_st lib brute_force nan vg n_charge cgd cdd cdd_inv threshold h =
     (case init_osqp_problem lib (get_mat cdd_inv h) (get_mat cgd h) (Some n_charge) of
        Inl e \<Rightarrow> (Inl e, h)
      | Inr prob \<Rightarrow>
          vector_list
            (map_solve_st
               (\<lambda>v. ground_state_closed_0d_st lib brute_force nan v n_charge cgd cdd_inv threshold)
               vg [0..<length (get_mat vg h)] prob h))"

section \<open>Entry points and backend dispatch\<close>

subsection \<open>Arrays with a shape\<close>

text \<open>
  An n-dimensional float array: its shape and its entries in row-major order. The
  entry points see the voltage batch and the backend results only through their
  shape, their size and the entries of the results.
\<close>

record ndarray =
  shape :: "nat list"
  data :: "real list"

definition size_of :: "ndarray \<Rightarrow> nat" where
  "size_of a = prod_list (shape a)"

text \<open>
  \<open>a.reshape(-1, k)\<close>: numpy infers the first dimension and refuses when \<open>k\<close> is zero or
  does not divide the size.
\<close>

definition reshape_rows :: "ndarray \<Rightarrow> nat \<Rightarrow> error + ndarray" where
  "reshape_rows a k =
     (if k = 0 \<or> size_of a mod k \<noteq> 0
      then Inl (ValueError ''cannot reshape array'')
      else Inr (a\<lparr>shape := [size_of a div k, k]\<rparr>))"

text \<open>\<open>a.reshape(new_shape)\<close> with every dimension given.\<close>

definition reshape :: "ndarray \<Rightarrow> nat list \<Rightarrow> error + ndarray" where
  "reshape a new_shape =
     (if prod_list new_shape = size_of a
      then Inr (a\<lparr>shape := new_shape\<rparr>)
      else Inl (ValueError ''cannot reshape array''))"

text \<open>
  The vectors along the last axis of an array with at least one axis: consecutive
  blocks of \<open>shape[-1]\<close> entries. \<open>a.sum(axis=-1)\<close> sums each of them and refuses a
  zero-dimensional array.
\<close>

definition last_axis_rows :: "ndarray \<Rightarrow> real list list" where
  "last_axis_rows a =
     (let d = last (shape a)
      in map (\<lambda>i. take d (drop (i * d) (data a))) [0..<prod_list (butlast (shape a))])"

definition sum_last_axis :: "ndarray \<Rightarrow> error + real list" where
  "sum_last_axis a =
     (case shape a of
        [] \<Rightarrow> Inl (AxisError ''axis -1 is out of bounds for array of dimension 0'')
      | _ \<Rightarrow> Inr (map sum_list (last_axis_rows a)))"

text \<open>
  \<open>x.astype(int)\<close> truncates towards zero; \<open>np.isclose(a, b)\<close> with the default
  tolerances is \<open>\<bar>a - b\<bar> \<le> atol + rtol * \<bar>b\<bar>\<close>, \<open>atol = 1e-8\<close>, \<open>rtol = 1e-5\<close>.
\<close>

definition astype_int :: "real \<Rightarrow> int" where
  "astype_int x = (if 0 \<le> x then \<lfloor>x\<rfloor> else \<lceil>x\<rceil>)"

definition isclose :: "real \<Rightarrow> real \<Rightarrow> bool" where
  "isclose a b = (\<bar>a - b\<bar> \<le> 1 / 10 ^ 8 + 1 / 10 ^ 5 * \<bar>b\<bar>)"

subsection \<open>Shape validation\<close>

text \<open>The decimal digits of a non-negative integer, as an f-string prints them.\<close>

definition digit_char :: "nat \<Rightarrow> char" where
  "digit_char d = ''0123456789'' ! d"

function str_nat :: "nat \<Rightarrow> string" where
  "str_nat n = (if n < 10 then [digit_char n] else str_nat (n div 10) @ [digit_char (n mod 10)])"
  by pat_completeness auto
termination
  by (relation "measure id") auto

text \<open>\<open>_validate_vg(vg, n_gate)\<close>. \<open>vg.shape[-1]\<close> of a zero-dimensional array is an IndexError.\<close>

definition validate_vg :: "ndarray \<Rightarrow> nat \<Rightarrow> error + unit" where
  "validate_vg vg n_gate =
     (case shape vg of
        [] \<Rightarrow> Inl (IndexError ''tuple index out of range'')
      | _ \<Rightarrow>
          if last (shape vg) \<noteq> n_gate
          then Inl (ValueError
                 (''The shape of vg is in correct it should be of shape (..., n_gate) = (...,''
                  @ str_nat n_gate @ '')''))
          else Inr ())"

subsection \<open>The model object and the imported backends\<close>

text \<open>The attributes of \<open>model\<close> that the entry points read.\<close>

record model =
  n_gate :: nat
  n_dot :: nat
  core :: string
  cgd :: "real list list"
  cdd :: "real list list"
  cdd_inv :: "real list list"
  threshold :: real
  polish :: bool
  T :: real
  max_charge_carriers :: "int option"

text \<open>
  The eight solver functions that \<open>_helper_functions.py\<close> imports from the packages
  \<open>rust_core\<close>, \<open>jax_core\<close>, \<open>brute_force\<close> and \<open>python_core\<close>. Each field takes the
  arguments of the call in the order of the keywords there and returns an array or
  raises.
\<close>

record backends =
  open_rust :: "ndarray \<Rightarrow> real list list \<Rightarrow> real list list \<Rightarrow> real \<Rightarrow> bool \<Rightarrow> real \<Rightarrow> error + ndarray"
  open_jax :: "ndarray \<Rightarrow> real list list \<Rightarrow> real list list \<Rightarrow> real \<Rightarrow> error + ndarray"
  open_brute_force :: "ndarray \<Rightarrow> real list list \<Rightarrow> real list list \<Rightarrow> int \<Rightarrow> real \<Rightarrow> error + ndarray"
  open_python :: "ndarray \<Rightarrow> real list list \<Rightarrow> real list list \<Rightarrow> real \<Rightarrow> bool \<Rightarrow> error + ndarray"
  closed_rust :: "ndarray \<Rightarrow> int \<Rightarrow> real list list \<Rightarrow> real list list \<Rightarrow> real list list \<Rightarrow> real \<Rightarrow> bool \<Rightarrow> real
                  \<Rightarrow> error + ndarray"
  closed_jax :: "ndarray \<Rightarrow> int \<Rightarrow> real list list \<Rightarrow> real list list \<Rightarrow> real list list \<Rightarrow> real
                 \<Rightarrow> error + ndarray"
  closed_brute_force :: "ndarray \<Rightarrow> int \<Rightarrow> real list list \<Rightarrow> real list list \<Rightarrow> real list list \<Rightarrow> real
                         \<Rightarrow> error + ndarray"
  closed_python :: "ndarray \<Rightarrow> int \<Rightarrow> real list list \<Rightarrow> real list list \<Rightarrow> real list list \<Rightarrow> real \<Rightarrow> bool
                    \<Rightarrow> error + ndarray"

definition jax_warning :: string where
  "jax_warning = ''Warning: JAX core does not support threshold < 1.0, using threshold of 1.0''"

definition jax_warning_closed :: string where
  "jax_warning_closed = ''Warning: JAX core does not support threshold < 1.0, using of 1.0''"

definition incorrect_core :: "string \<Rightarrow> error" where
  "incorrect_core c = ValueError (''Incorrect core '' @ c @ '', it must be either rust, jax or python'')"

subsection \<open>Dispatch on \<open>model.core\<close>\<close>

text \<open>
  The \<open>match model.core\<close> statement of \<open>_ground_state_open\<close>: the lines printed and the
  result of the backend call, or the exception.
\<close>

definition dispatch_open :: "backends \<Rightarrow> model \<Rightarrow> ndarray \<Rightarrow> string list \<times> (error + ndarray)" where
  "dispatch_open bk m vg =
     (if core m \<in> set [''rust'', ''Rust'', ''RUST'', ''r''] then
        ([], open_rust bk vg (cgd m) (cdd_inv m) (threshold m) (polish m) (T m))
      else if core m \<in> set [''jax'', ''Jax'', ''JAX'', ''j''] then
        (if threshold m < 1 then [jax_warning] else [],
         open_jax bk vg (cgd m) (cdd_inv m) (T m))
      else if core m \<in> set [''brute_force'', ''jax_brute_force'', ''Jax_brute_force'',
                             ''JAX_BRUTE_FORCE'', ''b''] then
        (case max_charge_carriers m of
           None \<Rightarrow>
             ([], Inl (ValueError
                (''The max_charge_carriers must be specified for the jax_brute_force core use:''
                 @ [CHR 0x0A] @ ''model.max_charge_carriers = #'')))
         | Some mcc \<Rightarrow>
             (if threshold m < 1 then [jax_warning] else [],
              open_brute_force bk vg (cgd m) (cdd_inv m) mcc (T m)))
      else if core m \<in> set [''python'', ''Python'', ''PYTHON'', ''p''] then
        ([], open_python bk vg (cgd m) (cdd_inv m) (threshold m) (polish m))
      else ([], Inl (incorrect_core (core m))))"

text \<open>The \<open>match model.core\<close> statement of \<open>_ground_state_closed\<close>.\<close>

definition dispatch_closed ::
  "backends \<Rightarrow> model \<Rightarrow> ndarray \<Rightarrow> int \<Rightarrow> string list \<times> (error + ndarray)" where
  "dispatch_closed bk m vg n_charge =
     (if core m \<in> set [''rust'', ''Rust'', ''RUST'', ''r''] then
        ([], closed_rust bk vg n_charge (cgd m) (cdd m) (cdd_inv m) (threshold m) (polish m) (T m))
      else if core m \<in> set [''jax'', ''Jax'', ''JAX'', ''j''] then
        (if threshold m < 1 then [jax_warning_closed] else [],
         closed_jax bk vg n_charge (cgd m) (cdd m) (cdd_inv m) (T m))
      else if core m \<in> set [''brute_force'', ''jax_brute_force'', ''Jax_brute_force'',
                             ''JAX_BRUTE_FORCE'', ''b''] then
        (if threshold m < 1 then [jax_warning] else [],
         closed_brute_force bk vg n_charge (cgd m) (cdd m) (cdd_inv m) (T m))
      else if core m \<in> set [''python'', ''Python'', ''PYTHON'', ''p''] then
        ([], closed_python bk vg n_charge (cgd m) (cdd m) (cdd_inv m) (threshold m) (polish m))
      else ([], Inl (incorrect_core (core m))))"

subsection \<open>The entry points\<close>

text \<open>
  \<open>_ground_state_open(model, vg)\<close>: validation, flattening to \<open>(n_points, n_gate)\<close>, the
  backend, the assertion that no charge is negative, and the reshape to
  \<open>(*vg.shape[:-1], n_dot)\<close>. The conversion to \<open>VectorList\<close> leaves shape and entries as
  they are. The result pairs the lines printed with the array returned or the
  exception raised.
\<close>

definition ground_state_open :: "backends \<Rightarrow> model \<Rightarrow> ndarray \<Rightarrow> string list \<times> (error + ndarray)" where
  "ground_state_open bk m vg =
     (case validate_vg vg (n_gate m) of
        Inl e \<Rightarrow> ([], Inl e)
      | Inr _ \<Rightarrow>
          (let vg_shape = shape vg;
               nd_shape = butlast vg_shape @ [n_dot m]
           in case reshape_rows vg (n_gate m) of
                Inl e \<Rightarrow> ([], Inl e)
              | Inr vg2 \<Rightarrow>
                  (case dispatch_open bk m vg2 of
                     (out, Inl e) \<Rightarrow> (out, Inl e)
                   | (out, Inr result) \<Rightarrow>
                       if \<forall>x \<in> set (data result). astype_int x \<ge> 0
                       then (out, reshape result nd_shape)
                       else (out, Inl (AssertionError
                              ''The number of charges is negative something went wrong'')))))"

text \<open>
  \<open>_ground_state_closed(model, vg, n_charge)\<close>: the same steps, with the assertion that
  every sum along the last axis is close to \<open>n_charge\<close>.
\<close>

definition ground_state_closed ::
  "backends \<Rightarrow> model \<Rightarrow> ndarray \<Rightarrow> int \<Rightarrow> string list \<times> (error + ndarray)" where
  "ground_state_closed bk m vg n_charge =
     (case validate_vg vg (n_gate m) of
        Inl e \<Rightarrow> ([], Inl e)
      | Inr _ \<Rightarrow>
          (let vg_shape = shape vg;
               nd_shape = butlast vg_shape @ [n_dot m]
           in case reshape_rows vg (n_gate m) of
                Inl e \<Rightarrow> ([], Inl e)
              | Inr vg2 \<Rightarrow>
                  (case dispatch_closed bk m vg2 n_charge of
                     (out, Inl e) \<Rightarrow> (out, Inl e)
                   | (out, Inr result) \<Rightarrow>
                       (case sum_last_axis result of
                          Inl e \<Rightarrow> (out, Inl e)
                        | Inr row_sums \<Rightarrow>
                            if \<forall>s \<in> set row_sums. isclose s (of_int n_charge)
                            then (out, reshape result nd_shape)
                            else (out, Inl (AssertionError
                                   ''The number of charges is not correct something went wrong''))))))"

section \<open>Verification\<close>

subsection \<open>Tuples of itertools.product\<close>

lemma set_product: "set (product xs k) = {t. length t = k \<and> set t \<subseteq> set xs}"
proof (induction k)
  case 0
  show ?case by auto
next
  case (Suc k)
  show ?case
  proof (rule set_eqI)
    fix t
    show "t \<in> set (product xs (Suc k)) \<longleftrightarrow> t \<in> {t. length t = Suc k \<and> set t \<subseteq> set xs}"
      using Suc by (cases t) auto
  qed
qed


lemma length_product: "length (product xs k) = length xs ^ k"
  by (induction k) (simp_all add: length_concat comp_def sum_list_triv)

subsection \<open>Closed-dot configurations\<close>








subsection \<open>The first minimum\<close>

lemma argmin_scan_inv:
  assumes "i = length pre" "bi < i" "bv = (pre @ xs) ! bi"
    and "\<forall>j<i. bv \<le> (pre @ xs) ! j" and "\<forall>j<bi. bv < (pre @ xs) ! j"
  shows "argmin_scan bi bv i xs < length (pre @ xs) \<and>
         (\<forall>j<length (pre @ xs). (pre @ xs) ! argmin_scan bi bv i xs \<le> (pre @ xs) ! j) \<and>
         (\<forall>j<argmin_scan bi bv i xs. (pre @ xs) ! argmin_scan bi bv i xs < (pre @ xs) ! j)"
  using assms
proof (induction xs arbitrary: pre bi bv i)
  case Nil
  then show ?case by simp
next
  case (Cons x xs)
  have L: "pre @ x # xs = (pre @ [x]) @ xs" by simp
  have xi: "(pre @ x # xs) ! i = x" using Cons.prems(1) by simp
  show ?case
  proof (cases "x < bv")
    case True
    have "argmin_scan i x (Suc i) xs < length ((pre @ [x]) @ xs) \<and>
         (\<forall>j<length ((pre @ [x]) @ xs). ((pre @ [x]) @ xs) ! argmin_scan i x (Suc i) xs \<le> ((pre @ [x]) @ xs) ! j) \<and>
         (\<forall>j<argmin_scan i x (Suc i) xs. ((pre @ [x]) @ xs) ! argmin_scan i x (Suc i) xs < ((pre @ [x]) @ xs) ! j)"
    proof (rule Cons.IH)
      show "Suc i = length (pre @ [x])" using Cons.prems(1) by simp
      show "i < Suc i" by simp
      show "x = ((pre @ [x]) @ xs) ! i" using xi by simp
      show "\<forall>j<Suc i. x \<le> ((pre @ [x]) @ xs) ! j"
      proof (intro allI impI)
        fix j assume "j < Suc i"
        then consider "j < i" | "j = i" by linarith
        then show "x \<le> ((pre @ [x]) @ xs) ! j"
        proof cases
          case 1
          then have "bv \<le> (pre @ x # xs) ! j" using Cons.prems(4) by simp
          then have "x \<le> (pre @ x # xs) ! j" using True by simp
          then show ?thesis by simp
        next
          case 2 then show ?thesis using xi by simp
        qed
      qed
      show "\<forall>j<i. x < ((pre @ [x]) @ xs) ! j"
        using Cons.prems(4) True L by (metis less_le_trans)
    qed
    then show ?thesis using True by (simp del: append_assoc add: L[symmetric])
  next
    case False
    have "argmin_scan bi bv (Suc i) xs < length ((pre @ [x]) @ xs) \<and>
         (\<forall>j<length ((pre @ [x]) @ xs). ((pre @ [x]) @ xs) ! argmin_scan bi bv (Suc i) xs \<le> ((pre @ [x]) @ xs) ! j) \<and>
         (\<forall>j<argmin_scan bi bv (Suc i) xs. ((pre @ [x]) @ xs) ! argmin_scan bi bv (Suc i) xs < ((pre @ [x]) @ xs) ! j)"
    proof (rule Cons.IH)
      show "Suc i = length (pre @ [x])" using Cons.prems(1) by simp
      show "bi < Suc i" using Cons.prems(2) by simp
      show "bv = ((pre @ [x]) @ xs) ! bi" using Cons.prems(3) by simp
      show "\<forall>j<Suc i. bv \<le> ((pre @ [x]) @ xs) ! j"
      proof (intro allI impI)
        fix j assume "j < Suc i"
        then consider "j < i" | "j = i" by linarith
        then show "bv \<le> ((pre @ [x]) @ xs) ! j"
        proof cases
          case 1 then show ?thesis using Cons.prems(4) L by metis
        next
          case 2 then show ?thesis using xi False by simp
        qed
      qed
      show "\<forall>j<bi. bv < ((pre @ [x]) @ xs) ! j"
        using Cons.prems(5) L by metis
    qed
    then show ?thesis using False by (simp del: append_assoc add: L[symmetric])
  qed
qed

lemma argmin_first_min:
  assumes "F \<noteq> []"
  shows "\<exists>i. argmin F = Inr i \<and> i < length F \<and> (\<forall>j<length F. F ! i \<le> F ! j) \<and> (\<forall>j<i. F ! i < F ! j)"
proof -
  from assms obtain x xs where F: "F = x # xs" by (cases F) auto
  have "argmin_scan 0 x 1 xs < length ([x] @ xs) \<and>
         (\<forall>j<length ([x] @ xs). ([x] @ xs) ! argmin_scan 0 x 1 xs \<le> ([x] @ xs) ! j) \<and>
         (\<forall>j<argmin_scan 0 x 1 xs. ([x] @ xs) ! argmin_scan 0 x 1 xs < ([x] @ xs) ! j)"
    by (rule argmin_scan_inv) simp_all
  then show ?thesis by (simp add: F argmin_def)
qed

lemma argmin_empty: "argmin [] = Inl (ValueError ''attempt to get argmin of an empty sequence'')"
  by (simp add: argmin_def)

subsection \<open>Candidate rows in closed form\<close>

lemma foldl_update_length:
  "length (foldl (\<lambda>row z. row[k z := g z]) row0 zs) = length row0"
  by (induction zs arbitrary: row0) simp_all

lemma foldl_update_other:
  "j \<notin> k ` set zs \<Longrightarrow> foldl (\<lambda>row z. row[k z := g z]) row0 zs ! j = row0 ! j"
  by (induction zs arbitrary: row0) simp_all

lemma foldl_update_hit:
  assumes "distinct (map k zs)" "z \<in> set zs" "k z < length row0"
  shows "foldl (\<lambda>row z. row[k z := g z]) row0 zs ! (k z) = g z"
  using assms
proof (induction zs arbitrary: row0)
  case Nil
  then show ?case by simp
next
  case (Cons y ys)
  show ?case
  proof (cases "z = y")
    case True
    have "k y \<notin> k ` set ys" using Cons.prems(1) by auto
    then have "foldl (\<lambda>row z. row[k z := g z]) (row0[k y := g y]) ys ! (k y) = (row0[k y := g y]) ! (k y)"
      by (rule foldl_update_other)
    then show ?thesis using True Cons.prems(3) by simp
  next
    case False
    then have "z \<in> set ys" using Cons.prems(2) by simp
    moreover have "distinct (map k ys)" using Cons.prems(1) by simp
    moreover have "k z < length (row0[k y := g y])" using Cons.prems(3) by simp
    ultimately have "foldl (\<lambda>row z. row[k z := g z]) (row0[k y := g y]) ys ! (k z) = g z"
      using Cons.IH[of "row0[k y := g y]"] by blast
    then show ?thesis by simp
  qed
qed

lemma filter_upt_nth_pos:
  assumes "j < N" "P j"
  shows "length (filter P [0..<j]) < length (filter P [0..<N])"
    and "filter P [0..<N] ! length (filter P [0..<j]) = j"
proof -
  define d where "d = N - Suc j"
  have d: "N = j + Suc d"
    using assms(1) by (simp add: d_def)
  have "[0..<j + Suc d] = [0..<j] @ [j..<j + Suc d]"
    by (rule upt_add_eq_append) simp
  moreover have "[j..<j + Suc d] = j # [Suc j..<j + Suc d]"
    by (rule upt_conv_Cons) simp
  ultimately have "[0..<N] = [0..<j] @ j # [Suc j..<N]"
    unfolding d by (simp only:)
  then have f: "filter P [0..<N] = filter P [0..<j] @ j # filter P [Suc j..<N]"
    using assms(2) by simp
  show "length (filter P [0..<j]) < length (filter P [0..<N])" by (simp add: f)
  show "filter P [0..<N] ! length (filter P [0..<j]) = j" by (simp add: f nth_append)
qed

lemma fill_row_length:
  "length (fill_row nan n fc ra ops) = length n"
  by (simp add: fill_row_def Let_def case_prod_unfold foldl_update_length)

lemma fill_row_round:
  assumes "j \<in> set ra" "j < length n" "distinct ra"
  shows "fill_row nan n fc ra ops ! j = rint (n ! j)"
proof -
  let ?row1 = "foldl (\<lambda>row (j, operation). row[j := operation (n ! j)])
                       (replicate (length n) nan) (zip fc ops)"
  have l1: "length ?row1 = length n"
    by (simp add: case_prod_unfold foldl_update_length)
  have "foldl (\<lambda>row z. row[id z := rint (n ! z)]) ?row1 ra ! (id j) = rint (n ! j)"
    by (rule foldl_update_hit) (use assms l1 in auto)
  then show ?thesis by (simp add: fill_row_def Let_def)
qed

lemma fill_row_branch:
  assumes "p < length fc" "length ops = length fc" "distinct fc" "fc ! p < length n"
    "fc ! p \<notin> set ra"
  shows "fill_row nan n fc ra ops ! (fc ! p) = (ops ! p) (n ! (fc ! p))"
proof -
  let ?row0 = "replicate (length n) nan"
  let ?row1 = "foldl (\<lambda>row z. row[fst z := (snd z) (n ! fst z)]) ?row0 (zip fc ops)"
  have z: "(fc ! p, ops ! p) \<in> set (zip fc ops)"
    using assms(1,2) by (metis in_set_zip fst_conv snd_conv)
  have "?row1 ! (fst (fc ! p, ops ! p)) = (snd (fc ! p, ops ! p)) (n ! fst (fc ! p, ops ! p))"
    by (rule foldl_update_hit) (use assms z in auto)
  then have r1: "?row1 ! (fc ! p) = (ops ! p) (n ! (fc ! p))" by simp
  have "foldl (\<lambda>row z. row[id z := rint (n ! z)]) ?row1 ra ! (fc ! p) = ?row1 ! (fc ! p)"
    by (rule foldl_update_other) (use assms in auto)
  then show ?thesis using r1 by (simp add: fill_row_def Let_def case_prod_unfold)
qed

lemma fill_row_closed_form:
  fixes P :: "nat \<Rightarrow> bool"
  assumes fc: "fc = filter P [0..<length n]"
    and ra: "ra = filter (\<lambda>j. j \<notin> set fc) [0..<length n]"
    and ops: "length ops = length fc"
  shows "fill_row nan n fc ra ops =
         map (\<lambda>j. if P j then (ops ! length (filter P [0..<j])) (n ! j) else rint (n ! j))
             [0..<length n]"
proof (rule nth_equalityI)
  show "length (fill_row nan n fc ra ops) = length (map (\<lambda>j. if P j then (ops ! length (filter P [0..<j])) (n ! j) else rint (n ! j)) [0..<length n])"
    by (simp add: fill_row_length)
next
  fix j assume "j < length (fill_row nan n fc ra ops)"
  then have j: "j < length n" by (simp add: fill_row_length)
  have dfc: "distinct fc" and dra: "distinct ra" by (simp_all add: fc ra)
  show "fill_row nan n fc ra ops ! j =
      map (\<lambda>j. if P j then (ops ! length (filter P [0..<j])) (n ! j) else rint (n ! j)) [0..<length n] ! j"
  proof (cases "P j")
    case True
    let ?p = "length (filter P [0..<j])"
    have p: "?p < length fc" "fc ! ?p = j"
      using filter_upt_nth_pos[of j "length n" P] j True by (simp_all add: fc)
    have "j \<notin> set ra" using True j by (simp add: ra fc)
    then have "fill_row nan n fc ra ops ! (fc ! ?p) = (ops ! ?p) (n ! (fc ! ?p))"
      using p j dfc ops by (intro fill_row_branch) simp_all
    then show ?thesis using True j p by simp
  next
    case False
    then have "j \<in> set ra" using j by (simp add: ra fc)
    then have "fill_row nan n fc ra ops ! j = rint (n ! j)"
      using j dra by (intro fill_row_round)
    then show ?thesis using False j by simp
  qed
qed

lemma candidate_rows_closed_form:
  fixes P :: "nat \<Rightarrow> bool"
  assumes fc: "fc = filter P [0..<length n]"
    and ra: "ra = filter (\<lambda>j. j \<notin> set fc) [0..<length n]"
  shows "candidate_rows nan n fc ra =
         map (\<lambda>ops. map (\<lambda>j. if P j then (ops ! length (filter P [0..<j])) (n ! j)
                               else rint (n ! j)) [0..<length n])
             (product [np_floor, np_ceil] (length (filter P [0..<length n])))"
  unfolding candidate_rows_def Let_def
proof (rule map_cong)
  show "product [np_floor, np_ceil] (length fc) =
        product [np_floor, np_ceil] (length (filter P [0..<length n]))"
    by (simp add: fc)
next
  fix ops assume "ops \<in> set (product [np_floor, np_ceil] (length (filter P [0..<length n])))"
  then have "length ops = length fc" by (simp add: set_product fc)
  then show "fill_row nan n fc ra ops =
        map (\<lambda>j. if P j then (ops ! length (filter P [0..<j])) (n ! j) else rint (n ! j))
            [0..<length n]"
    by (rule fill_row_closed_form[OF fc ra])
qed

lemma np_floor_neq_np_ceil: "np_floor \<noteq> np_ceil"
proof
  assume "np_floor = np_ceil"
  then have "np_floor (1 / 2) = np_ceil (1 / 2)" by simp
  moreover have "\<lceil>1 / 2 :: real\<rceil> = 1" by (rule ceiling_unique) simp_all
  ultimately show False by (simp add: np_floor_def np_ceil_def)
qed

lemma candidates_set:
  fixes P :: "nat \<Rightarrow> bool" and n :: "real list"
  defines "cands \<equiv> map (\<lambda>ops. map (\<lambda>j. if P j then (ops ! length (filter P [0..<j])) (n ! j)
                               else rint (n ! j)) [0..<length n])
             (product [np_floor, np_ceil] (length (filter P [0..<length n])))"
  shows "set cands = {c. length c = length n \<and>
            (\<forall>j<length n. if P j then c ! j = np_floor (n ! j) \<or> c ! j = np_ceil (n ! j)
                           else c ! j = rint (n ! j))}" (is "_ = ?R")
proof (rule set_eqI)
  fix c
  let ?fc = "filter P [0..<length n]"
  let ?row = "\<lambda>ops. map (\<lambda>j. if P j then (ops ! length (filter P [0..<j])) (n ! j)
                               else rint (n ! j)) [0..<length n]"
  show "c \<in> set cands \<longleftrightarrow> c \<in> ?R"
  proof
    assume "c \<in> set cands"
    then obtain ops where ops: "length ops = length ?fc" "set ops \<subseteq> {np_floor, np_ceil}"
      and c: "c = ?row ops"
      by (auto simp: cands_def set_product)
    have "\<forall>j<length n. if P j then c ! j = np_floor (n ! j) \<or> c ! j = np_ceil (n ! j)
                           else c ! j = rint (n ! j)"
    proof (intro allI impI)
      fix j assume j: "j < length n"
      show "if P j then c ! j = np_floor (n ! j) \<or> c ! j = np_ceil (n ! j) else c ! j = rint (n ! j)"
      proof (cases "P j")
        case True
        have "length (filter P [0..<j]) < length ops"
          using filter_upt_nth_pos(1)[of j "length n" P] j True ops(1) by simp
        then have "ops ! length (filter P [0..<j]) \<in> {np_floor, np_ceil}"
          using ops(2) by (metis nth_mem subsetD)
        then show ?thesis using True j c by auto
      next
        case False
        then show ?thesis using j c by simp
      qed
    qed
    moreover have "length c = length n" using c by simp
    ultimately show "c \<in> ?R" by blast
  next
    assume "c \<in> ?R"
    then have lc: "length c = length n"
      and el: "\<forall>j<length n. if P j then c ! j = np_floor (n ! j) \<or> c ! j = np_ceil (n ! j)
                           else c ! j = rint (n ! j)" by auto
    let ?ops = "map (\<lambda>j. if c ! j = np_floor (n ! j) then np_floor else np_ceil) ?fc"
    have "length ?ops = length ?fc" by simp
    moreover have "set ?ops \<subseteq> {np_floor, np_ceil}" by auto
    ultimately have mem: "?ops \<in> set (product [np_floor, np_ceil] (length ?fc))"
      by (simp add: set_product)
    have "?row ?ops = c"
    proof (rule nth_equalityI)
      show "length (?row ?ops) = length c" using lc by simp
    next
      fix j assume "j < length (?row ?ops)"
      then have j: "j < length n" by simp
      show "?row ?ops ! j = c ! j"
      proof (cases "P j")
        case True
        let ?p = "length (filter P [0..<j])"
        have p: "?p < length ?fc" "?fc ! ?p = j"
          using filter_upt_nth_pos[of j "length n" P] j True by simp_all
        have "?ops ! ?p = (if c ! j = np_floor (n ! j) then np_floor else np_ceil)"
          using p by simp
        moreover have "c ! j = np_floor (n ! j) \<or> c ! j = np_ceil (n ! j)"
          using el j True by simp
        ultimately have "(?ops ! ?p) (n ! j) = c ! j" by auto
        then show ?thesis using True j by simp
      next
        case False
        then show ?thesis using el j by simp
      qed
    qed
    moreover have "?row ?ops \<in> ?row ` set (product [np_floor, np_ceil] (length ?fc))"
      using mem by (rule imageI)
    ultimately have "c \<in> ?row ` set (product [np_floor, np_ceil] (length ?fc))"
      by (simp only:)
    then show "c \<in> set cands" unfolding cands_def by (simp only: set_map)
  qed
qed

lemma select_argmin_first_min:
  fixes cdd_inv
  assumes "n_list \<noteq> []" "\<forall>row \<in> set n_list. length row = length n"
    "length cdd_inv = length n" "\<forall>r \<in> set cdd_inv. length r = length n"
  shows "\<exists>i<length n_list. select_argmin n_list cdd_inv n = Inr (n_list ! i) \<and>
           (\<forall>j<length n_list. quad_form cdd_inv (map2 (-) (n_list ! i) n)
                                \<le> quad_form cdd_inv (map2 (-) (n_list ! j) n)) \<and>
           (\<forall>j<i. quad_form cdd_inv (map2 (-) (n_list ! i) n)
                    < quad_form cdd_inv (map2 (-) (n_list ! j) n))"
proof -
  let ?F = "map (\<lambda>row. quad_form cdd_inv (map2 (-) row n)) n_list"
  have fe: "free_energy n_list cdd_inv n = Inr ?F"
    using assms(2-4) by (simp add: free_energy_def)
  have "?F \<noteq> []" using assms(1) by simp
  from argmin_first_min[OF this] obtain i where i: "argmin ?F = Inr i" "i < length ?F"
    "\<forall>j<length ?F. ?F ! i \<le> ?F ! j" "\<forall>j<i. ?F ! i < ?F ! j" by blast
  have "select_argmin n_list cdd_inv n = Inr (n_list ! i)"
    by (simp add: select_argmin_def fe i(1))
  moreover have "\<forall>j<length n_list. quad_form cdd_inv (map2 (-) (n_list ! i) n)
                                \<le> quad_form cdd_inv (map2 (-) (n_list ! j) n)"
    using i(2,3) by simp
  moreover have "\<forall>j<i. quad_form cdd_inv (map2 (-) (n_list ! i) n)
                    < quad_form cdd_inv (map2 (-) (n_list ! j) n)"
    using i(2,4) by simp
  ultimately show ?thesis using i(2) by auto
qed

lemma rint_floor_or_ceil: "rint x = np_floor x \<or> rint x = np_ceil x"
proof (cases "x = of_int \<lfloor>x\<rfloor>")
  case True
  then have "x - of_int \<lfloor>x\<rfloor> < 1 / 2" by simp
  then show ?thesis by (simp add: rint_def Let_def np_floor_def)
next
  case False
  then have "\<lceil>x\<rceil> = \<lfloor>x\<rfloor> + 1"
    by (metis ceiling_altdef)
  then show ?thesis by (auto simp: rint_def Let_def np_floor_def np_ceil_def)
qed

lemma compute_argmin_open_closed_form:
  fixes cdd_inv
  fixes n :: "real list" and threshold :: real
  defines "branched \<equiv> \<lambda>j. \<bar>(n ! j - of_int \<lfloor>n ! j\<rfloor>) - 1 / 2\<bar> < threshold / 2"
  shows "compute_argmin_open nan n threshold cdd_inv =
     select_argmin
       (map (\<lambda>ops. map (\<lambda>j. if branched j then (ops ! length (filter branched [0..<j])) (n ! j)
                               else rint (n ! j)) [0..<length n])
             (product [np_floor, np_ceil] (length (filter branched [0..<length n]))))
       cdd_inv n"
proof -
  have fcb: "filter (\<lambda>j. \<bar>map (\<lambda>x. x - np_floor x) n ! j - 1 / 2\<bar> < threshold / 2) [0..<length n]
           = filter branched [0..<length n]"
    by (rule filter_cong) (auto simp: np_floor_def branched_def)
  show ?thesis
    unfolding compute_argmin_open_def Let_def fcb
    by (simp only: candidate_rows_closed_form[OF refl refl])
qed

subsection \<open>The open-dot corrector\<close>



lemma ceiling_half: "\<lceil>1 / 2 :: real\<rceil> = 1"
  by (rule ceiling_unique) simp_all


subsection \<open>Threshold monotonicity of the open-dot corrector\<close>

lemma open_candidates_mono:
  fixes n :: "real list" and t1 t2 :: real
  assumes "t1 \<le> t2"
  shows "{c. length c = length n \<and>
            (\<forall>j<length n. if \<bar>(n ! j - of_int \<lfloor>n ! j\<rfloor>) - 1 / 2\<bar> < t1 / 2
                           then c ! j = np_floor (n ! j) \<or> c ! j = np_ceil (n ! j)
                           else c ! j = rint (n ! j))}
       \<subseteq> {c. length c = length n \<and>
            (\<forall>j<length n. if \<bar>(n ! j - of_int \<lfloor>n ! j\<rfloor>) - 1 / 2\<bar> < t2 / 2
                           then c ! j = np_floor (n ! j) \<or> c ! j = np_ceil (n ! j)
                           else c ! j = rint (n ! j))}"
proof
  fix c
  assume "c \<in> {c. length c = length n \<and>
            (\<forall>j<length n. if \<bar>(n ! j - of_int \<lfloor>n ! j\<rfloor>) - 1 / 2\<bar> < t1 / 2
                           then c ! j = np_floor (n ! j) \<or> c ! j = np_ceil (n ! j)
                           else c ! j = rint (n ! j))}"
  then have lc: "length c = length n"
    and el: "\<And>j. j < length n \<Longrightarrow>
               (if \<bar>(n ! j - of_int \<lfloor>n ! j\<rfloor>) - 1 / 2\<bar> < t1 / 2
                then c ! j = np_floor (n ! j) \<or> c ! j = np_ceil (n ! j)
                else c ! j = rint (n ! j))"
    by auto
  have "\<forall>j<length n. if \<bar>(n ! j - of_int \<lfloor>n ! j\<rfloor>) - 1 / 2\<bar> < t2 / 2
                           then c ! j = np_floor (n ! j) \<or> c ! j = np_ceil (n ! j)
                           else c ! j = rint (n ! j)"
  proof (intro allI impI)
    fix j assume j: "j < length n"
    show "if \<bar>(n ! j - of_int \<lfloor>n ! j\<rfloor>) - 1 / 2\<bar> < t2 / 2
          then c ! j = np_floor (n ! j) \<or> c ! j = np_ceil (n ! j)
          else c ! j = rint (n ! j)"
    proof (cases "\<bar>(n ! j - of_int \<lfloor>n ! j\<rfloor>) - 1 / 2\<bar> < t1 / 2")
      case True
      then have "\<bar>(n ! j - of_int \<lfloor>n ! j\<rfloor>) - 1 / 2\<bar> < t2 / 2" using assms by simp
      then show ?thesis using el[OF j] True by simp
    next
      case False
      then have r: "c ! j = rint (n ! j)" using el[OF j] by simp
      show ?thesis
      proof (cases "\<bar>(n ! j - of_int \<lfloor>n ! j\<rfloor>) - 1 / 2\<bar> < t2 / 2")
        case True
        then show ?thesis using r rint_floor_or_ceil[of "n ! j"] by simp
      next
        case False
        then show ?thesis using r by simp
      qed
    qed
  qed
  then show "c \<in> {c. length c = length n \<and>
            (\<forall>j<length n. if \<bar>(n ! j - of_int \<lfloor>n ! j\<rfloor>) - 1 / 2\<bar> < t2 / 2
                           then c ! j = np_floor (n ! j) \<or> c ! j = np_ceil (n ! j)
                           else c ! j = rint (n ! j))}"
    using lc by simp
qed

lemma compute_argmin_open_minimal:
  fixes cdd_inv
  fixes n :: "real list" and threshold :: real
  assumes "length cdd_inv = length n" and "\<forall>r \<in> set cdd_inv. length r = length n"
  shows "\<exists>r. compute_argmin_open nan n threshold cdd_inv = Inr r \<and>
           r \<in> {c. length c = length n \<and>
            (\<forall>j<length n. if \<bar>(n ! j - of_int \<lfloor>n ! j\<rfloor>) - 1 / 2\<bar> < threshold / 2
                           then c ! j = np_floor (n ! j) \<or> c ! j = np_ceil (n ! j)
                           else c ! j = rint (n ! j))} \<and>
           (\<forall>c \<in> {c. length c = length n \<and>
            (\<forall>j<length n. if \<bar>(n ! j - of_int \<lfloor>n ! j\<rfloor>) - 1 / 2\<bar> < threshold / 2
                           then c ! j = np_floor (n ! j) \<or> c ! j = np_ceil (n ! j)
                           else c ! j = rint (n ! j))}.
              quad_form cdd_inv (map2 (-) r n) \<le> quad_form cdd_inv (map2 (-) c n))"
proof -
  define branched where "branched = (\<lambda>j. \<bar>(n ! j - of_int \<lfloor>n ! j\<rfloor>) - 1 / 2\<bar> < threshold / 2)"
  define cands where "cands = map (\<lambda>ops. map (\<lambda>j. if branched j then (ops ! length (filter branched [0..<j])) (n ! j)
                               else rint (n ! j)) [0..<length n])
             (product [np_floor, np_ceil] (length (filter branched [0..<length n])))"
  have st: "set cands = {c. length c = length n \<and>
                       (\<forall>j<length n. if branched j
                                      then c ! j = np_floor (n ! j) \<or> c ! j = np_ceil (n ! j)
                                      else c ! j = rint (n ! j))}"
    unfolding cands_def by (rule candidates_set)
  have "length cands = 2 ^ length (filter branched [0..<length n])"
    by (simp add: cands_def length_product numeral_2_eq_2)
  then have ne: "cands \<noteq> []" by (metis length_0_conv power_not_zero zero_neq_numeral)
  have rows: "\<forall>row \<in> set cands. length row = length n" unfolding st by simp
  from select_argmin_first_min[OF ne rows assms]
  obtain i where i: "i < length cands" "select_argmin cands cdd_inv n = Inr (cands ! i)"
     "\<forall>j<length cands. quad_form cdd_inv (map2 (-) (cands ! i) n)
                                \<le> quad_form cdd_inv (map2 (-) (cands ! j) n)"
    by blast
  have eq: "compute_argmin_open nan n threshold cdd_inv = select_argmin cands cdd_inv n"
    unfolding cands_def branched_def by (rule compute_argmin_open_closed_form)
  have mem: "cands ! i \<in> set cands" using i(1) by simp
  have mn: "\<forall>c \<in> set cands. quad_form cdd_inv (map2 (-) (cands ! i) n) \<le> quad_form cdd_inv (map2 (-) c n)"
    using i(3) by (metis in_set_conv_nth)
  show ?thesis
    using eq i(2) mem mn unfolding st branched_def by (intro exI[of _ "cands ! i"]) simp
qed

lemma open_candidate_rows_set:
  fixes n :: "real list" and t :: real
  defines "fc \<equiv> filter (\<lambda>j. \<bar>map (\<lambda>x. x - np_floor x) n ! j - 1 / 2\<bar> < t / 2) [0..<length n]"
  shows "set (candidate_rows nan n fc (filter (\<lambda>j. j \<notin> set fc) [0..<length n])) =
         {c. length c = length n \<and>
            (\<forall>j<length n. if \<bar>(n ! j - of_int \<lfloor>n ! j\<rfloor>) - 1 / 2\<bar> < t / 2
                           then c ! j = np_floor (n ! j) \<or> c ! j = np_ceil (n ! j)
                           else c ! j = rint (n ! j))}"
proof -
  have fcb: "fc = filter (\<lambda>j. \<bar>(n ! j - of_int \<lfloor>n ! j\<rfloor>) - 1 / 2\<bar> < t / 2) [0..<length n]"
    unfolding fc_def by (rule filter_cong) (auto simp: np_floor_def)
  show ?thesis
    unfolding candidate_rows_closed_form[OF fcb refl]
    by (rule candidates_set)
qed

text \<open>
  Claim C5. For a fixed continuous occupation vector and a fixed \<open>cdd_inv\<close>, raising the
  threshold from \<open>t1\<close> to \<open>t2 \<ge> t1\<close> only adds rows to the candidate list of
  \<open>compute_argmin_open\<close>, so the free energy of the row returned at \<open>t2\<close> is at most that
  of the row returned at \<open>t1\<close>. Positive definiteness of \<open>cdd_inv\<close> is not needed.
\<close>

theorem compute_argmin_open_threshold_monotone:
  fixes n :: "real list" and t1 t2 :: real and cdd_inv :: "real list list" and nan :: real
  defines "fc \<equiv> \<lambda>t. filter (\<lambda>j. \<bar>map (\<lambda>x. x - np_floor x) n ! j - 1 / 2\<bar> < t / 2)
                             [0..<length n]"
  defines "n_list \<equiv> \<lambda>t. candidate_rows nan n (fc t) (filter (\<lambda>j. j \<notin> set (fc t)) [0..<length n])"
  assumes "length cdd_inv = length n" and "\<forall>r \<in> set cdd_inv. length r = length n"
    and "t1 \<le> t2"
  shows "set (n_list t1) \<subseteq> set (n_list t2) \<and>
         (\<exists>r1 r2. compute_argmin_open nan n t1 cdd_inv = Inr r1 \<and>
                  compute_argmin_open nan n t2 cdd_inv = Inr r2 \<and>
                  quad_form cdd_inv (map2 (-) r2 n) \<le> quad_form cdd_inv (map2 (-) r1 n))"
proof -
  let ?C = "\<lambda>t. {c. length c = length n \<and>
            (\<forall>j<length n. if \<bar>(n ! j - of_int \<lfloor>n ! j\<rfloor>) - 1 / 2\<bar> < t / 2
                           then c ! j = np_floor (n ! j) \<or> c ! j = np_ceil (n ! j)
                           else c ! j = rint (n ! j))}"
  have s: "\<And>t. set (n_list t) = ?C t"
    unfolding n_list_def fc_def by (rule open_candidate_rows_set)
  have sub: "?C t1 \<subseteq> ?C t2" using assms(5) by (rule open_candidates_mono)
  from compute_argmin_open_minimal[OF assms(3,4), of nan t1]
  obtain r1 where r1: "compute_argmin_open nan n t1 cdd_inv = Inr r1" "r1 \<in> ?C t1"
    by blast
  from compute_argmin_open_minimal[OF assms(3,4), of nan t2]
  obtain r2 where r2: "compute_argmin_open nan n t2 cdd_inv = Inr r2"
    "\<forall>c \<in> ?C t2. quad_form cdd_inv (map2 (-) r2 n) \<le> quad_form cdd_inv (map2 (-) c n)"
    by blast
  have "r1 \<in> ?C t2" using r1(2) sub by (rule subsetD[rotated])
  then have "quad_form cdd_inv (map2 (-) r2 n) \<le> quad_form cdd_inv (map2 (-) r1 n)"
    using r2(2) by (rule bspec[rotated])
  then show ?thesis using r1(1) r2(1) sub unfolding s by blast
qed

lemma ceiling_two_fifths: "\<lceil>2 / 5 :: real\<rceil> = 1"
  by (rule ceiling_unique) simp_all

theorem compute_argmin_open_threshold_monotone_witness:
  "length [[1, 9 / 10], [9 / 10, 1 :: real]] = length [2 / 5, 2 / 5 :: real] \<and>
   list_all (\<lambda>r. length r = length [2 / 5, 2 / 5 :: real]) [[1, 9 / 10], [9 / 10, 1 :: real]] \<and>
   (0 :: real) \<le> 1 \<and>
   compute_argmin_open 0 [2 / 5, 2 / 5] 0 [[1, 9 / 10], [9 / 10, 1]] = Inr [0, 0] \<and>
   compute_argmin_open 0 [2 / 5, 2 / 5] 1 [[1, 9 / 10], [9 / 10, 1]] = Inr [0, 1] \<and>
   quad_form [[1, 9 / 10], [9 / 10, 1]] (map2 (-) [0, 1] [2 / 5, 2 / 5])
     \<le> quad_form [[1, 9 / 10], [9 / 10, 1]] (map2 (-) [0, 0] [2 / 5, 2 / 5])"
proof -
  have h1: "length [[1, 9 / 10], [9 / 10, 1 :: real]] = length [2 / 5, 2 / 5 :: real]" by simp
  have h2: "\<forall>r \<in> set [[1, 9 / 10], [9 / 10, 1 :: real]]. length r = length [2 / 5, 2 / 5 :: real]"
    by simp
  have h3: "(0 :: real) \<le> 1" by simp
  have e1: "compute_argmin_open 0 [2 / 5, 2 / 5] 0 [[1, 9 / 10], [9 / 10, 1]] = Inr [0, 0]"
    by (simp add: compute_argmin_open_def candidate_rows_def fill_row_def select_argmin_def
        free_energy_def quad_form_def argmin_def rint_def np_floor_def np_ceil_def Let_def
        nth_Cons' ceiling_two_fifths)
  have e2: "compute_argmin_open 0 [2 / 5, 2 / 5] 1 [[1, 9 / 10], [9 / 10, 1]] = Inr [0, 1]"
    by (simp add: compute_argmin_open_def candidate_rows_def fill_row_def select_argmin_def
        free_energy_def quad_form_def argmin_def rint_def np_floor_def np_ceil_def Let_def
        nth_Cons' ceiling_two_fifths)
  from compute_argmin_open_threshold_monotone[OF h1 h2 h3, where nan = 0]
  obtain r1 r2 where "compute_argmin_open 0 [2 / 5, 2 / 5] 0 [[1, 9 / 10], [9 / 10, 1]] = Inr r1"
    "compute_argmin_open 0 [2 / 5, 2 / 5] 1 [[1, 9 / 10], [9 / 10, 1]] = Inr r2"
    "quad_form [[1, 9 / 10], [9 / 10, 1]] (map2 (-) r2 [2 / 5, 2 / 5])
       \<le> quad_form [[1, 9 / 10], [9 / 10, 1]] (map2 (-) r1 [2 / 5, 2 / 5])"
    by blast
  then have "quad_form [[1, 9 / 10], [9 / 10, 1]] (map2 (-) [0, 1] [2 / 5, 2 / 5])
     \<le> quad_form [[1, 9 / 10], [9 / 10, 1]] (map2 (-) [0, 0] [2 / 5, 2 / 5])"
    using e1 e2 by simp
  then show ?thesis using h1 e1 e2 by simp
qed

subsection \<open>The closed-dot corrector\<close>

lemma ceiling_eighth: "\<lceil>1 / 8 :: real\<rceil> = 1"
  by (rule ceiling_unique) simp_all

lemma filter_less_upt: "filter (\<lambda>a. a < k) [0..<n] = [0..<min k n]"
proof (induction n)
  case 0
  show ?case by simp
next
  case (Suc n)
  show ?case
  proof (cases "n < k")
    case True
    then have "min k (Suc n) = Suc n" "min k n = n" by simp_all
    then show ?thesis using Suc True by simp
  next
    case False
    then have "min k (Suc n) = k" "min k n = k" by simp_all
    then show ?thesis using Suc False by simp
  qed
qed

lemma compute_argmin_closed_branches_prefix:
  fixes cdd_inv threshold
  shows "\<exists>k. k \<le> length n \<and>
       compute_argmin_closed brute_force nan n threshold cdd_inv None =
       select_argmin (candidate_rows nan n [0..<k] [k..<length n]) cdd_inv n"
proof -
  define ti where "ti = max (searchsorted_right (sort (map (\<lambda>r. \<bar>r - 1 / 2\<bar>) (map (\<lambda>x. x - np_floor x) n))) (threshold / 2))
                        (min (length cdd_inv) 3)"
  let ?k = "min ti (length n)"
  have r: "filter (\<lambda>j. j \<notin> set [0..<?k]) [0..<length n] = [?k..<length n]"
  proof -
    have "[0..<length n] = [0..<?k] @ [?k..<length n]"
      by (metis le_add_diff_inverse min.cobounded2 upt_add_eq_append zero_le)
    then have "filter (\<lambda>j. j \<notin> set [0..<?k]) [0..<length n]
          = filter (\<lambda>j. j \<notin> set [0..<?k]) ([0..<?k] @ [?k..<length n])" by simp
    also have "\<dots> = [?k..<length n]"
    proof -
      have "filter (\<lambda>j. j \<notin> set [0..<?k]) [0..<?k] = []" by (simp add: filter_empty_conv)
      moreover have "filter (\<lambda>j. j \<notin> set [0..<?k]) [?k..<length n] = [?k..<length n]"
        by (rule filter_True) auto
      ultimately show ?thesis by (simp only: filter_append append_Nil)
    qed
    finally show ?thesis .
  qed
  have "compute_argmin_closed brute_force nan n threshold cdd_inv None =
       select_argmin (candidate_rows nan n [0..<?k] [?k..<length n]) cdd_inv n"
    unfolding compute_argmin_closed_def Let_def option.case ti_def[symmetric] filter_less_upt r ..
  then show ?thesis by (intro exI[of _ ?k]) simp
qed

text \<open>
  Claim C2. Without a total-charge target, \<open>compute_argmin_closed\<close> ranks the dots by
  \<open>\<bar>remainder - 1/2\<bar>\<close> with \<open>np.argsort\<close>, but the ranking is overwritten by
  \<open>np.arange\<close> before it is used: the branched dots are the first \<open>k\<close> dots by index
  (lemma \<open>compute_argmin_closed_branches_prefix\<close>), not the \<open>k\<close> dots whose remainder is
  closest to \<open>1/2\<close>. With four dots relaxed to \<open>[1/8, 1/8, 1/8, 3/8]\<close> and threshold
  \<open>1/2\<close>, three dots are branched; the ranking puts dot 3 first, yet dots 0, 1 and 2 are
  branched and dot 3 is rounded to 0. The row returned, \<open>[0, 0, 0, 0]\<close>, has a higher
  free energy than \<open>[0, 0, 0, 1]\<close>, which branching dot 3 would have tried.
\<close>

theorem compute_argmin_closed_ignores_ranking:
  "argsort (map (\<lambda>r. \<bar>r - 1 / 2\<bar>) (map (\<lambda>x. x - np_floor x) [1 / 8, 1 / 8, 1 / 8, 3 / 8]))
     = [3, 0, 1, 2] \<and>
   compute_argmin_closed (\<lambda>n_charge dots lower_limits. Inr []) 0 [1 / 8, 1 / 8, 1 / 8, 3 / 8] (1 / 2)
     [[5, 0, 0, 2], [0, 1, 0, 0], [0, 0, 1, 0], [2, 0, 0, 1]] None = Inr [0, 0, 0, 0] \<and>
   quad_form [[5, 0, 0, 2], [0, 1, 0, 0], [0, 0, 1, 0], [2, 0, 0, 1]]
       (map2 (-) [0, 0, 0, 1] [1 / 8, 1 / 8, 1 / 8, 3 / 8])
     < quad_form [[5, 0, 0, 2], [0, 1, 0, 0], [0, 0, 1, 0], [2, 0, 0, 1]]
       (map2 (-) [0, 0, 0, 0] [1 / 8, 1 / 8, 1 / 8, 3 / 8])"
proof -
  have a: "argsort (map (\<lambda>r. \<bar>r - 1 / 2\<bar>) (map (\<lambda>x. x - np_floor x) [1 / 8, 1 / 8, 1 / 8, 3 / 8]))
     = [3, 0, 1, 2]"
    by (simp add: argsort_def np_floor_def nth_Cons' upt_rec_numeral)
  have b: "compute_argmin_closed (\<lambda>n_charge dots lower_limits. Inr []) 0 [1 / 8, 1 / 8, 1 / 8, 3 / 8] (1 / 2)
     [[5, 0, 0, 2], [0, 1, 0, 0], [0, 0, 1, 0], [2, 0, 0, 1]] None = Inr [0, 0, 0, 0]"
    by (simp add: compute_argmin_closed_def candidate_rows_def fill_row_def select_argmin_def
        free_energy_def quad_form_def argmin_def rint_def np_floor_def np_ceil_def Let_def
        nth_Cons' ceiling_eighth searchsorted_right_def upt_rec_numeral)
  have c: "quad_form [[5, 0, 0, 2], [0, 1, 0, 0], [0, 0, 1, 0], [2, 0, 0, 1]]
       (map2 (-) [0, 0, 0, 1] [1 / 8, 1 / 8, 1 / 8, 3 / 8])
     < quad_form [[5, 0, 0, 2], [0, 1, 0, 0], [0, 0, 1, 0], [2, 0, 0, 1]]
       (map2 (-) [0, 0, 0, 0] [1 / 8, 1 / 8, 1 / 8, 3 / 8])"
    by (simp add: quad_form_def nth_Cons' upt_rec_numeral)
  show ?thesis using a b c by (intro conjI)
qed









subsection \<open>Entry points: validation, flattening and reshaping\<close>

lemma str_nat_digit: "n < 10 \<Longrightarrow> str_nat n = [digit_char n]"
  by (subst str_nat.simps) simp

lemma str_nat_3: "str_nat 3 = ''3''"
  by (simp add: str_nat_digit digit_char_def)

lemma validate_vg_mismatch:
  assumes "shape vg \<noteq> []" "last (shape vg) \<noteq> k"
  shows "validate_vg vg k =
     Inl (ValueError (''The shape of vg is in correct it should be of shape (..., n_gate) = (...,''
                      @ str_nat k @ '')''))"
  using assms by (cases "shape vg") (simp_all add: validate_vg_def)

lemma prod_list_butlast_last:
  "xs \<noteq> [] \<Longrightarrow> prod_list xs = prod_list (butlast xs) * (last xs :: nat)"
  by (induction xs) auto

lemma validate_vg_ok:
  assumes "shape vg \<noteq> []" "last (shape vg) = k"
  shows "validate_vg vg k = Inr ()"
  using assms by (cases "shape vg") (simp_all add: validate_vg_def)


lemma reshape_rows_ok:
  assumes "shape vg \<noteq> []" "last (shape vg) = k" "0 < k"
  shows "reshape_rows vg k = Inr (vg\<lparr>shape := [prod_list (butlast (shape vg)), k]\<rparr>)"
  using assms prod_list_butlast_last[of "shape vg"]
  by (simp add: reshape_rows_def size_of_def)














subsection \<open>Shape validation\<close>

text \<open>
  Claim C7, as stated: a voltage batch whose trailing axis differs from the gate count
  makes both entry points raise a shape error whose message states the expected and
  the actual shape. The message is built from \<open>n_gate\<close> alone: batches of shape
  \<open>(5, 7)\<close> and \<open>(2, 4)\<close> offered to a model with three gates raise the same message,
  which names neither 7 nor 4.
\<close>

theorem shape_error_message_omits_actual_shape:
  "ground_state_open
     \<lparr>open_rust = (\<lambda>_ _ _ _ _ _. Inr \<lparr>shape = [1, 1], data = [1]\<rparr>), open_jax = (\<lambda>_ _ _ _. Inr \<lparr>shape = [1, 1], data = [1]\<rparr>),
      open_brute_force = (\<lambda>_ _ _ _ _. Inr \<lparr>shape = [1, 1], data = [1]\<rparr>), open_python = (\<lambda>_ _ _ _ _. Inr \<lparr>shape = [1, 1], data = [1]\<rparr>),
      closed_rust = (\<lambda>_ _ _ _ _ _ _ _. Inr \<lparr>shape = [1, 1], data = [1]\<rparr>), closed_jax = (\<lambda>_ _ _ _ _ _. Inr \<lparr>shape = [1, 1], data = [1]\<rparr>),
      closed_brute_force = (\<lambda>_ _ _ _ _ _. Inr \<lparr>shape = [1, 1], data = [1]\<rparr>),
      closed_python = (\<lambda>_ _ _ _ _ _ _. Inr \<lparr>shape = [1, 1], data = [1]\<rparr>)\<rparr>
     \<lparr>n_gate = 3, n_dot = 2, core = ''python'', cgd = [[1]], cdd = [[1]], cdd_inv = [[1]],
      threshold = 1, polish = False, T = 0, max_charge_carriers = None\<rparr>
     \<lparr>shape = [5, 7], data = replicate 35 0\<rparr>
   = ([], Inl (ValueError ''The shape of vg is in correct it should be of shape (..., n_gate) = (...,3)'')) \<and>
   ground_state_open
     \<lparr>open_rust = (\<lambda>_ _ _ _ _ _. Inr \<lparr>shape = [1, 1], data = [1]\<rparr>), open_jax = (\<lambda>_ _ _ _. Inr \<lparr>shape = [1, 1], data = [1]\<rparr>),
      open_brute_force = (\<lambda>_ _ _ _ _. Inr \<lparr>shape = [1, 1], data = [1]\<rparr>), open_python = (\<lambda>_ _ _ _ _. Inr \<lparr>shape = [1, 1], data = [1]\<rparr>),
      closed_rust = (\<lambda>_ _ _ _ _ _ _ _. Inr \<lparr>shape = [1, 1], data = [1]\<rparr>), closed_jax = (\<lambda>_ _ _ _ _ _. Inr \<lparr>shape = [1, 1], data = [1]\<rparr>),
      closed_brute_force = (\<lambda>_ _ _ _ _ _. Inr \<lparr>shape = [1, 1], data = [1]\<rparr>),
      closed_python = (\<lambda>_ _ _ _ _ _ _. Inr \<lparr>shape = [1, 1], data = [1]\<rparr>)\<rparr>
     \<lparr>n_gate = 3, n_dot = 2, core = ''python'', cgd = [[1]], cdd = [[1]], cdd_inv = [[1]],
      threshold = 1, polish = False, T = 0, max_charge_carriers = None\<rparr>
     \<lparr>shape = [2, 4], data = replicate 8 0\<rparr>
   = ([], Inl (ValueError ''The shape of vg is in correct it should be of shape (..., n_gate) = (...,3)'')) \<and>
   CHR ''7'' \<notin> set ''The shape of vg is in correct it should be of shape (..., n_gate) = (...,3)'' \<and>
   CHR ''4'' \<notin> set ''The shape of vg is in correct it should be of shape (..., n_gate) = (...,3)''"
  by (simp add: ground_state_open_def validate_vg_def str_nat_digit digit_char_def)

text \<open>
  Claim C7, amended: for every voltage batch with at least one axis whose trailing
  axis differs from the gate count, both entry points raise a \<open>ValueError\<close>, print
  nothing and consult no backend (the outcome is the same for all backends); the
  message states the expected shape \<open>(..., n_gate)\<close> only.
\<close>

theorem shape_mismatch_raises_before_solving:
  fixes m :: model and bk :: backends
  shows "shape vg \<noteq> [] \<and> last (shape vg) \<noteq> n_gate m \<longrightarrow>
     ground_state_open bk m vg =
       ([], Inl (ValueError
         (''The shape of vg is in correct it should be of shape (..., n_gate) = (...,''
          @ str_nat (n_gate m) @ '')''))) \<and>
     ground_state_closed bk m vg n_charge =
       ([], Inl (ValueError
         (''The shape of vg is in correct it should be of shape (..., n_gate) = (...,''
          @ str_nat (n_gate m) @ '')'')))"
  by (simp add: ground_state_open_def ground_state_closed_def validate_vg_mismatch)

theorem shape_mismatch_raises_before_solving_witness:
  "shape \<lparr>shape = [5, 7], data = replicate 35 0\<rparr> \<noteq> [] \<and>
   last (shape \<lparr>shape = [5, 7], data = replicate 35 0\<rparr>) \<noteq> (3 :: nat) \<and>
   ground_state_closed
     \<lparr>open_rust = (\<lambda>_ _ _ _ _ _. Inr \<lparr>shape = [1, 1], data = [1]\<rparr>), open_jax = (\<lambda>_ _ _ _. Inr \<lparr>shape = [1, 1], data = [1]\<rparr>),
      open_brute_force = (\<lambda>_ _ _ _ _. Inr \<lparr>shape = [1, 1], data = [1]\<rparr>), open_python = (\<lambda>_ _ _ _ _. Inr \<lparr>shape = [1, 1], data = [1]\<rparr>),
      closed_rust = (\<lambda>_ _ _ _ _ _ _ _. Inr \<lparr>shape = [1, 1], data = [1]\<rparr>), closed_jax = (\<lambda>_ _ _ _ _ _. Inr \<lparr>shape = [1, 1], data = [1]\<rparr>),
      closed_brute_force = (\<lambda>_ _ _ _ _ _. Inr \<lparr>shape = [1, 1], data = [1]\<rparr>),
      closed_python = (\<lambda>_ _ _ _ _ _ _. Inr \<lparr>shape = [1, 1], data = [1]\<rparr>)\<rparr>
     \<lparr>n_gate = 3, n_dot = 2, core = ''python'', cgd = [[1]], cdd = [[1]], cdd_inv = [[1]],
      threshold = 1, polish = False, T = 0, max_charge_carriers = None\<rparr>
     \<lparr>shape = [5, 7], data = replicate 35 0\<rparr> 1
   = ([], Inl (ValueError ''The shape of vg is in correct it should be of shape (..., n_gate) = (...,3)''))"
  using shape_mismatch_raises_before_solving[of "\<lparr>shape = [5, 7], data = replicate 35 0\<rparr>"
     "\<lparr>n_gate = 3, n_dot = 2, core = ''python'', cgd = [[1]], cdd = [[1]], cdd_inv = [[1]],
      threshold = 1, polish = False, T = 0, max_charge_carriers = None\<rparr>"
     "\<lparr>open_rust = (\<lambda>_ _ _ _ _ _. Inr \<lparr>shape = [1, 1], data = [1]\<rparr>), open_jax = (\<lambda>_ _ _ _. Inr \<lparr>shape = [1, 1], data = [1]\<rparr>),
      open_brute_force = (\<lambda>_ _ _ _ _. Inr \<lparr>shape = [1, 1], data = [1]\<rparr>), open_python = (\<lambda>_ _ _ _ _. Inr \<lparr>shape = [1, 1], data = [1]\<rparr>),
      closed_rust = (\<lambda>_ _ _ _ _ _ _ _. Inr \<lparr>shape = [1, 1], data = [1]\<rparr>), closed_jax = (\<lambda>_ _ _ _ _ _. Inr \<lparr>shape = [1, 1], data = [1]\<rparr>),
      closed_brute_force = (\<lambda>_ _ _ _ _ _. Inr \<lparr>shape = [1, 1], data = [1]\<rparr>),
      closed_python = (\<lambda>_ _ _ _ _ _ _. Inr \<lparr>shape = [1, 1], data = [1]\<rparr>)\<rparr>" 1]
  by (simp add: str_nat_digit digit_char_def)

subsection \<open>Backend dispatch\<close>

text \<open>
  Claim C8, as stated: every capitalisation of an accepted spelling selects the
  backend. The \<open>match\<close> statement lists fixed spellings: \<open>r\<close> selects the Rust
  backend, its capital \<open>R\<close> is refused.
\<close>

theorem core_spelling_is_case_sensitive:
  "ground_state_closed
     \<lparr>open_rust = (\<lambda>_ _ _ _ _ _. Inr \<lparr>shape = [1, 1], data = [1]\<rparr>), open_jax = (\<lambda>_ _ _ _. Inr \<lparr>shape = [1, 1], data = [1]\<rparr>),
      open_brute_force = (\<lambda>_ _ _ _ _. Inr \<lparr>shape = [1, 1], data = [1]\<rparr>), open_python = (\<lambda>_ _ _ _ _. Inr \<lparr>shape = [1, 1], data = [1]\<rparr>),
      closed_rust = (\<lambda>_ _ _ _ _ _ _ _. Inr \<lparr>shape = [1, 1], data = [1]\<rparr>), closed_jax = (\<lambda>_ _ _ _ _ _. Inr \<lparr>shape = [1, 1], data = [1]\<rparr>),
      closed_brute_force = (\<lambda>_ _ _ _ _ _. Inr \<lparr>shape = [1, 1], data = [1]\<rparr>),
      closed_python = (\<lambda>_ _ _ _ _ _ _. Inr \<lparr>shape = [1, 1], data = [1]\<rparr>)\<rparr>
     \<lparr>n_gate = 1, n_dot = 1, core = ''r'', cgd = [[1]], cdd = [[1]], cdd_inv = [[1]],
      threshold = 1, polish = False, T = 0, max_charge_carriers = None\<rparr>
     \<lparr>shape = [1, 1], data = [0]\<rparr> 1
   = ([], Inr \<lparr>shape = [1, 1], data = [1]\<rparr>) \<and>
   ground_state_closed
     \<lparr>open_rust = (\<lambda>_ _ _ _ _ _. Inr \<lparr>shape = [1, 1], data = [1]\<rparr>), open_jax = (\<lambda>_ _ _ _. Inr \<lparr>shape = [1, 1], data = [1]\<rparr>),
      open_brute_force = (\<lambda>_ _ _ _ _. Inr \<lparr>shape = [1, 1], data = [1]\<rparr>), open_python = (\<lambda>_ _ _ _ _. Inr \<lparr>shape = [1, 1], data = [1]\<rparr>),
      closed_rust = (\<lambda>_ _ _ _ _ _ _ _. Inr \<lparr>shape = [1, 1], data = [1]\<rparr>), closed_jax = (\<lambda>_ _ _ _ _ _. Inr \<lparr>shape = [1, 1], data = [1]\<rparr>),
      closed_brute_force = (\<lambda>_ _ _ _ _ _. Inr \<lparr>shape = [1, 1], data = [1]\<rparr>),
      closed_python = (\<lambda>_ _ _ _ _ _ _. Inr \<lparr>shape = [1, 1], data = [1]\<rparr>)\<rparr>
     \<lparr>n_gate = 1, n_dot = 1, core = ''R'', cgd = [[1]], cdd = [[1]], cdd_inv = [[1]],
      threshold = 1, polish = False, T = 0, max_charge_carriers = None\<rparr>
     \<lparr>shape = [1, 1], data = [0]\<rparr> 1
   = ([], Inl (ValueError ''Incorrect core R, it must be either rust, jax or python'')) \<and>
   ground_state_open
     \<lparr>open_rust = (\<lambda>_ _ _ _ _ _. Inr \<lparr>shape = [1, 1], data = [1]\<rparr>), open_jax = (\<lambda>_ _ _ _. Inr \<lparr>shape = [1, 1], data = [1]\<rparr>),
      open_brute_force = (\<lambda>_ _ _ _ _. Inr \<lparr>shape = [1, 1], data = [1]\<rparr>), open_python = (\<lambda>_ _ _ _ _. Inr \<lparr>shape = [1, 1], data = [1]\<rparr>),
      closed_rust = (\<lambda>_ _ _ _ _ _ _ _. Inr \<lparr>shape = [1, 1], data = [1]\<rparr>), closed_jax = (\<lambda>_ _ _ _ _ _. Inr \<lparr>shape = [1, 1], data = [1]\<rparr>),
      closed_brute_force = (\<lambda>_ _ _ _ _ _. Inr \<lparr>shape = [1, 1], data = [1]\<rparr>),
      closed_python = (\<lambda>_ _ _ _ _ _ _. Inr \<lparr>shape = [1, 1], data = [1]\<rparr>)\<rparr>
     \<lparr>n_gate = 1, n_dot = 1, core = ''R'', cgd = [[1]], cdd = [[1]], cdd_inv = [[1]],
      threshold = 1, polish = False, T = 0, max_charge_carriers = None\<rparr>
     \<lparr>shape = [1, 1], data = [0]\<rparr>
   = ([], Inl (ValueError ''Incorrect core R, it must be either rust, jax or python''))"
  by (simp add: ground_state_open_def ground_state_closed_def validate_vg_def reshape_rows_def size_of_def
      dispatch_open_def dispatch_closed_def sum_last_axis_def last_axis_rows_def isclose_def
      reshape_def incorrect_core_def astype_int_def Let_def)

lemma dispatch_open_unknown:
  fixes bk :: backends and m :: model
  assumes "core m \<notin> set [''rust'', ''Rust'', ''RUST'', ''r'', ''jax'', ''Jax'', ''JAX'', ''j'',
                       ''brute_force'', ''jax_brute_force'', ''Jax_brute_force'', ''JAX_BRUTE_FORCE'', ''b'',
                       ''python'', ''Python'', ''PYTHON'', ''p'']"
  shows "dispatch_open bk m vg = ([], Inl (incorrect_core (core m)))"
  using assms by (simp add: dispatch_open_def)

lemma dispatch_closed_unknown:
  fixes bk :: backends and m :: model
  assumes "core m \<notin> set [''rust'', ''Rust'', ''RUST'', ''r'', ''jax'', ''Jax'', ''JAX'', ''j'',
                       ''brute_force'', ''jax_brute_force'', ''Jax_brute_force'', ''JAX_BRUTE_FORCE'', ''b'',
                       ''python'', ''Python'', ''PYTHON'', ''p'']"
  shows "dispatch_closed bk m vg n_charge = ([], Inl (incorrect_core (core m)))"
  using assms by (simp add: dispatch_closed_def)

text \<open>
  Claim C8, amended: the dispatch accepts exactly the spellings \<open>rust, Rust, RUST, r\<close>
  (Rust backend), \<open>jax, Jax, JAX, j\<close> (JAX backend), \<open>brute_force, jax_brute_force,
  Jax_brute_force, JAX_BRUTE_FORCE, b\<close> (brute force; the open entry point also needs
  \<open>max_charge_carriers\<close>) and \<open>python, Python, PYTHON, p\<close> (Python backend), and calls
  the backend so named; any other identifier, with a voltage batch that passes
  validation, makes both entry points raise a \<open>ValueError\<close> that quotes the identifier.
\<close>

theorem dispatch_accepts_listed_spellings:
  fixes bk :: backends and m :: model
  shows
  "(core m \<in> set [''rust'', ''Rust'', ''RUST'', ''r''] \<longrightarrow>
      snd (dispatch_open bk m vg)
        = open_rust bk vg (cgd m) (cdd_inv m) (threshold m) (polish m) (T m) \<and>
      snd (dispatch_closed bk m vg n_charge)
        = closed_rust bk vg n_charge (cgd m) (cdd m) (cdd_inv m) (threshold m) (polish m) (T m)) \<and>
   (core m \<in> set [''jax'', ''Jax'', ''JAX'', ''j''] \<longrightarrow>
      snd (dispatch_open bk m vg) = open_jax bk vg (cgd m) (cdd_inv m) (T m) \<and>
      snd (dispatch_closed bk m vg n_charge)
        = closed_jax bk vg n_charge (cgd m) (cdd m) (cdd_inv m) (T m)) \<and>
   (core m \<in> set [''brute_force'', ''jax_brute_force'', ''Jax_brute_force'',
                     ''JAX_BRUTE_FORCE'', ''b''] \<longrightarrow>
      (\<forall>mcc. max_charge_carriers m = Some mcc \<longrightarrow>
         snd (dispatch_open bk m vg) = open_brute_force bk vg (cgd m) (cdd_inv m) mcc (T m)) \<and>
      snd (dispatch_closed bk m vg n_charge)
        = closed_brute_force bk vg n_charge (cgd m) (cdd m) (cdd_inv m) (T m)) \<and>
   (core m \<in> set [''python'', ''Python'', ''PYTHON'', ''p''] \<longrightarrow>
      snd (dispatch_open bk m vg)
        = open_python bk vg (cgd m) (cdd_inv m) (threshold m) (polish m) \<and>
      snd (dispatch_closed bk m vg n_charge)
        = closed_python bk vg n_charge (cgd m) (cdd m) (cdd_inv m) (threshold m) (polish m)) \<and>
   (core m \<notin> set [''rust'', ''Rust'', ''RUST'', ''r'', ''jax'', ''Jax'', ''JAX'', ''j'',
                       ''brute_force'', ''jax_brute_force'', ''Jax_brute_force'', ''JAX_BRUTE_FORCE'', ''b'',
                       ''python'', ''Python'', ''PYTHON'', ''p''] \<and>
    shape vg \<noteq> [] \<and> last (shape vg) = n_gate m \<and> 0 < n_gate m \<longrightarrow>
      ground_state_open bk m vg
        = ([], Inl (ValueError (''Incorrect core '' @ core m
                                @ '', it must be either rust, jax or python''))) \<and>
      ground_state_closed bk m vg n_charge
        = ([], Inl (ValueError (''Incorrect core '' @ core m
                                @ '', it must be either rust, jax or python''))))"
proof (intro conjI impI allI)
  assume "core m \<in> set [''rust'', ''Rust'', ''RUST'', ''r'']"
  then show "snd (dispatch_open bk m vg)
        = open_rust bk vg (cgd m) (cdd_inv m) (threshold m) (polish m) (T m)"
    and "snd (dispatch_closed bk m vg n_charge)
        = closed_rust bk vg n_charge (cgd m) (cdd m) (cdd_inv m) (threshold m) (polish m) (T m)"
    by (simp_all add: dispatch_open_def dispatch_closed_def)
next
  assume "core m \<in> set [''jax'', ''Jax'', ''JAX'', ''j'']"
  then show "snd (dispatch_open bk m vg) = open_jax bk vg (cgd m) (cdd_inv m) (T m)"
    and "snd (dispatch_closed bk m vg n_charge)
        = closed_jax bk vg n_charge (cgd m) (cdd m) (cdd_inv m) (T m)"
    by (auto simp: dispatch_open_def dispatch_closed_def)
next
  fix mcc
  assume "core m \<in> set [''brute_force'', ''jax_brute_force'', ''Jax_brute_force'',
                     ''JAX_BRUTE_FORCE'', ''b'']" and "max_charge_carriers m = Some mcc"
  then show "snd (dispatch_open bk m vg) = open_brute_force bk vg (cgd m) (cdd_inv m) mcc (T m)"
    by (auto simp: dispatch_open_def)
next
  assume "core m \<in> set [''brute_force'', ''jax_brute_force'', ''Jax_brute_force'',
                     ''JAX_BRUTE_FORCE'', ''b'']"
  then show "snd (dispatch_closed bk m vg n_charge)
        = closed_brute_force bk vg n_charge (cgd m) (cdd m) (cdd_inv m) (T m)"
    by (auto simp: dispatch_closed_def)
next
  assume "core m \<in> set [''python'', ''Python'', ''PYTHON'', ''p'']"
  then show "snd (dispatch_open bk m vg)
        = open_python bk vg (cgd m) (cdd_inv m) (threshold m) (polish m)"
    and "snd (dispatch_closed bk m vg n_charge)
        = closed_python bk vg n_charge (cgd m) (cdd m) (cdd_inv m) (threshold m) (polish m)"
    by (auto simp: dispatch_open_def dispatch_closed_def)
next
  assume a: "core m \<notin> set [''rust'', ''Rust'', ''RUST'', ''r'', ''jax'', ''Jax'', ''JAX'', ''j'',
                       ''brute_force'', ''jax_brute_force'', ''Jax_brute_force'', ''JAX_BRUTE_FORCE'', ''b'',
                       ''python'', ''Python'', ''PYTHON'', ''p''] \<and>
    shape vg \<noteq> [] \<and> last (shape vg) = n_gate m \<and> 0 < n_gate m"
  then have v: "validate_vg vg (n_gate m) = Inr ()"
    and r: "reshape_rows vg (n_gate m) = Inr (vg\<lparr>shape := [prod_list (butlast (shape vg)), n_gate m]\<rparr>)"
    by (simp_all add: validate_vg_ok reshape_rows_ok)
  from a have u: "core m \<notin> set [''rust'', ''Rust'', ''RUST'', ''r'', ''jax'', ''Jax'', ''JAX'', ''j'',
                       ''brute_force'', ''jax_brute_force'', ''Jax_brute_force'', ''JAX_BRUTE_FORCE'', ''b'',
                       ''python'', ''Python'', ''PYTHON'', ''p'']" by blast
  show "ground_state_open bk m vg
        = ([], Inl (ValueError (''Incorrect core '' @ core m
                                @ '', it must be either rust, jax or python'')))"
    by (simp add: ground_state_open_def Let_def v r dispatch_open_unknown[OF u] incorrect_core_def)
  show "ground_state_closed bk m vg n_charge
        = ([], Inl (ValueError (''Incorrect core '' @ core m
                                @ '', it must be either rust, jax or python'')))"
    by (simp add: ground_state_closed_def Let_def v r dispatch_closed_unknown[OF u] incorrect_core_def)
qed

theorem dispatch_accepts_listed_spellings_witness:
  "''PYTHON'' \<in> set [''python'', ''Python'', ''PYTHON'', ''p''] \<and>
   snd (dispatch_open
     \<lparr>open_rust = (\<lambda>_ _ _ _ _ _. Inr \<lparr>shape = [1, 1], data = [1]\<rparr>), open_jax = (\<lambda>_ _ _ _. Inr \<lparr>shape = [1, 1], data = [1]\<rparr>),
      open_brute_force = (\<lambda>_ _ _ _ _. Inr \<lparr>shape = [1, 1], data = [1]\<rparr>), open_python = (\<lambda>_ _ _ _ _. Inr \<lparr>shape = [1, 1], data = [1]\<rparr>),
      closed_rust = (\<lambda>_ _ _ _ _ _ _ _. Inr \<lparr>shape = [1, 1], data = [1]\<rparr>), closed_jax = (\<lambda>_ _ _ _ _ _. Inr \<lparr>shape = [1, 1], data = [1]\<rparr>),
      closed_brute_force = (\<lambda>_ _ _ _ _ _. Inr \<lparr>shape = [1, 1], data = [1]\<rparr>),
      closed_python = (\<lambda>_ _ _ _ _ _ _. Inr \<lparr>shape = [1, 1], data = [1]\<rparr>)\<rparr>
     \<lparr>n_gate = 1, n_dot = 1, core = ''PYTHON'', cgd = [[1]], cdd = [[1]], cdd_inv = [[1]],
      threshold = 1, polish = False, T = 0, max_charge_carriers = None\<rparr>
     \<lparr>shape = [1, 1], data = [0]\<rparr>) = Inr \<lparr>shape = [1, 1], data = [1]\<rparr> \<and>
   ''Rust_core'' \<notin> set [''rust'', ''Rust'', ''RUST'', ''r'', ''jax'', ''Jax'', ''JAX'', ''j'',
                       ''brute_force'', ''jax_brute_force'', ''Jax_brute_force'', ''JAX_BRUTE_FORCE'', ''b'',
                       ''python'', ''Python'', ''PYTHON'', ''p''] \<and>
   ground_state_open
     \<lparr>open_rust = (\<lambda>_ _ _ _ _ _. Inr \<lparr>shape = [1, 1], data = [1]\<rparr>), open_jax = (\<lambda>_ _ _ _. Inr \<lparr>shape = [1, 1], data = [1]\<rparr>),
      open_brute_force = (\<lambda>_ _ _ _ _. Inr \<lparr>shape = [1, 1], data = [1]\<rparr>), open_python = (\<lambda>_ _ _ _ _. Inr \<lparr>shape = [1, 1], data = [1]\<rparr>),
      closed_rust = (\<lambda>_ _ _ _ _ _ _ _. Inr \<lparr>shape = [1, 1], data = [1]\<rparr>), closed_jax = (\<lambda>_ _ _ _ _ _. Inr \<lparr>shape = [1, 1], data = [1]\<rparr>),
      closed_brute_force = (\<lambda>_ _ _ _ _ _. Inr \<lparr>shape = [1, 1], data = [1]\<rparr>),
      closed_python = (\<lambda>_ _ _ _ _ _ _. Inr \<lparr>shape = [1, 1], data = [1]\<rparr>)\<rparr>
     \<lparr>n_gate = 1, n_dot = 1, core = ''Rust_core'', cgd = [[1]], cdd = [[1]], cdd_inv = [[1]],
      threshold = 1, polish = False, T = 0, max_charge_carriers = None\<rparr>
     \<lparr>shape = [1, 1], data = [0]\<rparr>
   = ([], Inl (ValueError ''Incorrect core Rust_core, it must be either rust, jax or python''))"
proof -
  have a: "snd (dispatch_open
     \<lparr>open_rust = (\<lambda>_ _ _ _ _ _. Inr \<lparr>shape = [1, 1], data = [1]\<rparr>), open_jax = (\<lambda>_ _ _ _. Inr \<lparr>shape = [1, 1], data = [1]\<rparr>),
      open_brute_force = (\<lambda>_ _ _ _ _. Inr \<lparr>shape = [1, 1], data = [1]\<rparr>), open_python = (\<lambda>_ _ _ _ _. Inr \<lparr>shape = [1, 1], data = [1]\<rparr>),
      closed_rust = (\<lambda>_ _ _ _ _ _ _ _. Inr \<lparr>shape = [1, 1], data = [1]\<rparr>), closed_jax = (\<lambda>_ _ _ _ _ _. Inr \<lparr>shape = [1, 1], data = [1]\<rparr>),
      closed_brute_force = (\<lambda>_ _ _ _ _ _. Inr \<lparr>shape = [1, 1], data = [1]\<rparr>),
      closed_python = (\<lambda>_ _ _ _ _ _ _. Inr \<lparr>shape = [1, 1], data = [1]\<rparr>)\<rparr>
     \<lparr>n_gate = 1, n_dot = 1, core = ''PYTHON'', cgd = [[1]], cdd = [[1]], cdd_inv = [[1]],
      threshold = 1, polish = False, T = 0, max_charge_carriers = None\<rparr>
     \<lparr>shape = [1, 1], data = [0]\<rparr>) = Inr \<lparr>shape = [1, 1], data = [1]\<rparr>"
    using dispatch_accepts_listed_spellings[of
     "\<lparr>n_gate = 1, n_dot = 1, core = ''PYTHON'', cgd = [[1]], cdd = [[1]], cdd_inv = [[1]],
      threshold = 1, polish = False, T = 0, max_charge_carriers = None\<rparr>"
     "\<lparr>open_rust = (\<lambda>_ _ _ _ _ _. Inr \<lparr>shape = [1, 1], data = [1]\<rparr>), open_jax = (\<lambda>_ _ _ _. Inr \<lparr>shape = [1, 1], data = [1]\<rparr>),
      open_brute_force = (\<lambda>_ _ _ _ _. Inr \<lparr>shape = [1, 1], data = [1]\<rparr>), open_python = (\<lambda>_ _ _ _ _. Inr \<lparr>shape = [1, 1], data = [1]\<rparr>),
      closed_rust = (\<lambda>_ _ _ _ _ _ _ _. Inr \<lparr>shape = [1, 1], data = [1]\<rparr>), closed_jax = (\<lambda>_ _ _ _ _ _. Inr \<lparr>shape = [1, 1], data = [1]\<rparr>),
      closed_brute_force = (\<lambda>_ _ _ _ _ _. Inr \<lparr>shape = [1, 1], data = [1]\<rparr>),
      closed_python = (\<lambda>_ _ _ _ _ _ _. Inr \<lparr>shape = [1, 1], data = [1]\<rparr>)\<rparr>"
     "\<lparr>shape = [1, 1], data = [0]\<rparr>" 1]
    by simp
  have b: "ground_state_open
     \<lparr>open_rust = (\<lambda>_ _ _ _ _ _. Inr \<lparr>shape = [1, 1], data = [1]\<rparr>), open_jax = (\<lambda>_ _ _ _. Inr \<lparr>shape = [1, 1], data = [1]\<rparr>),
      open_brute_force = (\<lambda>_ _ _ _ _. Inr \<lparr>shape = [1, 1], data = [1]\<rparr>), open_python = (\<lambda>_ _ _ _ _. Inr \<lparr>shape = [1, 1], data = [1]\<rparr>),
      closed_rust = (\<lambda>_ _ _ _ _ _ _ _. Inr \<lparr>shape = [1, 1], data = [1]\<rparr>), closed_jax = (\<lambda>_ _ _ _ _ _. Inr \<lparr>shape = [1, 1], data = [1]\<rparr>),
      closed_brute_force = (\<lambda>_ _ _ _ _ _. Inr \<lparr>shape = [1, 1], data = [1]\<rparr>),
      closed_python = (\<lambda>_ _ _ _ _ _ _. Inr \<lparr>shape = [1, 1], data = [1]\<rparr>)\<rparr>
     \<lparr>n_gate = 1, n_dot = 1, core = ''Rust_core'', cgd = [[1]], cdd = [[1]], cdd_inv = [[1]],
      threshold = 1, polish = False, T = 0, max_charge_carriers = None\<rparr>
     \<lparr>shape = [1, 1], data = [0]\<rparr>
   = ([], Inl (ValueError ''Incorrect core Rust_core, it must be either rust, jax or python''))"
    using dispatch_accepts_listed_spellings[of
     "\<lparr>n_gate = 1, n_dot = 1, core = ''Rust_core'', cgd = [[1]], cdd = [[1]], cdd_inv = [[1]],
      threshold = 1, polish = False, T = 0, max_charge_carriers = None\<rparr>"
     "\<lparr>open_rust = (\<lambda>_ _ _ _ _ _. Inr \<lparr>shape = [1, 1], data = [1]\<rparr>), open_jax = (\<lambda>_ _ _ _. Inr \<lparr>shape = [1, 1], data = [1]\<rparr>),
      open_brute_force = (\<lambda>_ _ _ _ _. Inr \<lparr>shape = [1, 1], data = [1]\<rparr>), open_python = (\<lambda>_ _ _ _ _. Inr \<lparr>shape = [1, 1], data = [1]\<rparr>),
      closed_rust = (\<lambda>_ _ _ _ _ _ _ _. Inr \<lparr>shape = [1, 1], data = [1]\<rparr>), closed_jax = (\<lambda>_ _ _ _ _ _. Inr \<lparr>shape = [1, 1], data = [1]\<rparr>),
      closed_brute_force = (\<lambda>_ _ _ _ _ _. Inr \<lparr>shape = [1, 1], data = [1]\<rparr>),
      closed_python = (\<lambda>_ _ _ _ _ _ _. Inr \<lparr>shape = [1, 1], data = [1]\<rparr>)\<rparr>"
     "\<lparr>shape = [1, 1], data = [0]\<rparr>" 1]
    by simp
  show ?thesis using a b by simp
qed

subsection \<open>Shape of the result\<close>



subsection \<open>Total charge of a closed solve\<close>




subsection \<open>The capacitance matrices are not modified\<close>

lemma foldl_invariant:
  assumes "P h" and "\<And>h z. P h \<Longrightarrow> P (g h z)"
  shows "P (foldl g h zs)"
  using assms(1) by (induction zs arbitrary: h) (simp_all add: assms(2))

lemma set_item_frame:
  assumes "k \<le> a"
  shows "(\<forall>b<k. cells (set_item a i j x h) b = cells h b) \<and>
         next_addr (set_item a i j x h) = next_addr h"
  using assms by (auto simp: set_item_def split: option.splits obj.splits)

lemma alloc_frame:
  assumes "k \<le> next_addr h" "alloc v h = (a, h')"
  shows "(\<forall>b<k. cells h' b = cells h b) \<and> next_addr h' = Suc (next_addr h) \<and> a = next_addr h"
  using assms by (auto simp: alloc_def)

lemma fill_row_st_frame:
  assumes "k \<le> a"
    and "(\<forall>b<k. cells h b = cells h0 b) \<and> next_addr h = n0"
  shows "(\<forall>b<k. cells (fill_row_st a n fc ra h iops) b = cells h0 b) \<and>
         next_addr (fill_row_st a n fc ra h iops) = n0"
proof -
  let ?P = "\<lambda>h :: store. (\<forall>b<k. cells h b = cells h0 b) \<and> next_addr h = n0"
  let ?h1 = "foldl (\<lambda>h (j, operation). set_item a (fst iops) j (operation (n ! j)) h)
                     h (zip fc (snd iops))"
  have "?P ?h1"
  proof (rule foldl_invariant[where P = ?P])
    show "?P h" by (rule assms(2))
  next
    fix h z assume "?P h"
    then show "?P (case z of (j, operation) \<Rightarrow> set_item a (fst iops) j (operation (n ! j)) h)"
      using set_item_frame[OF assms(1)] by (cases z) simp
  qed
  then have "?P (foldl (\<lambda>h j. set_item a (fst iops) j (rint (n ! j)) h) ?h1 ra)"
  proof (rule foldl_invariant[where P = ?P])
    fix h z assume "?P h"
    then show "?P (set_item a (fst iops) z (rint (n ! z)) h)"
      using set_item_frame[OF assms(1)] by simp
  qed
  then show ?thesis by (simp add: fill_row_st_def Let_def)
qed

lemma candidate_rows_st_frame:
  assumes "k \<le> next_addr h"
  shows "(\<forall>b<k. cells (snd (candidate_rows_st nan n fc ra h)) b = cells h b) \<and>
         next_addr h \<le> next_addr (snd (candidate_rows_st nan n fc ra h))"
proof -
  obtain a h1 where al: "alloc (Mat (replicate (2 ^ length fc) (replicate (length n) nan))) h = (a, h1)"
    by (cases "alloc (Mat (replicate (2 ^ length fc) (replicate (length n) nan))) h")
  from alloc_frame[OF assms al] have h1: "(\<forall>b<k. cells h1 b = cells h b) \<and> next_addr h1 = Suc (next_addr h)"
    and a: "k \<le> a" using assms by simp_all
  let ?P = "\<lambda>h' :: store. (\<forall>b<k. cells h' b = cells h b) \<and> next_addr h' = Suc (next_addr h)"
  have "?P (foldl (fill_row_st a n fc ra) h1 (enumerate 0 (product [np_floor, np_ceil] (length fc))))"
  proof (rule foldl_invariant[where P = ?P])
    show "?P h1" by (rule h1)
  next
    fix h' z assume "?P h'"
    then show "?P (fill_row_st a n fc ra h' z)" by (rule fill_row_st_frame[OF a])
  qed
  then show ?thesis by (simp add: candidate_rows_st_def Let_def al)
qed

lemma compute_argmin_open_st_frame:
  fixes threshold cdd_inv
  assumes "k \<le> next_addr h"
  shows "(\<forall>b<k. cells (snd (compute_argmin_open_st nan n threshold cdd_inv h)) b = cells h b) \<and>
         next_addr h \<le> next_addr (snd (compute_argmin_open_st nan n threshold cdd_inv h))"
  using candidate_rows_st_frame[OF assms]
  by (simp add: compute_argmin_open_st_def Let_def case_prod_unfold)

lemma compute_argmin_closed_st_frame:
  fixes threshold cdd_inv
  assumes "k \<le> next_addr h"
  shows "(\<forall>b<k. cells (snd (compute_argmin_closed_st bf nan n threshold cdd_inv nc h)) b = cells h b) \<and>
         next_addr h \<le> next_addr (snd (compute_argmin_closed_st bf nan n threshold cdd_inv nc h))"
  using candidate_rows_st_frame[OF assms]
  by (cases nc) (simp_all add: compute_argmin_closed_st_def Let_def case_prod_unfold split: sum.splits)

lemma ground_state_open_0d_st_frame:
  fixes threshold cgd cdd_inv
  assumes "k \<le> next_addr h"
  shows "(\<forall>b<k. cells (snd (ground_state_open_0d_st lib nan v cgd cdd_inv threshold prob h)) b = cells h b) \<and>
         next_addr h \<le> next_addr (snd (ground_state_open_0d_st lib nan v cgd cdd_inv threshold prob h))"
  using compute_argmin_open_st_frame[OF assms]
  by (simp add: ground_state_open_0d_st_def Let_def case_prod_unfold split: sum.splits)

lemma ground_state_closed_0d_st_frame:
  fixes threshold cgd cdd_inv
  assumes "k \<le> next_addr h"
  shows "(\<forall>b<k. cells (snd (ground_state_closed_0d_st lib bf nan v nc cgd cdd_inv threshold prob h)) b = cells h b) \<and>
         next_addr h \<le> next_addr (snd (ground_state_closed_0d_st lib bf nan v nc cgd cdd_inv threshold prob h))"
  using compute_argmin_closed_st_frame[OF assms]
  by (simp add: ground_state_closed_0d_st_def Let_def case_prod_unfold split: sum.splits)

lemma map_solve_st_frame:
  assumes f: "\<And>v prob h. k \<le> next_addr h \<Longrightarrow>
                (\<forall>b<k. cells (snd (f v prob h)) b = cells h b) \<and> next_addr h \<le> next_addr (snd (f v prob h))"
    and "k \<le> next_addr h"
  shows "(\<forall>b<k. cells (snd (map_solve_st f vg idx prob h)) b = cells h b) \<and>
         next_addr h \<le> next_addr (snd (map_solve_st f vg idx prob h))"
  using assms(2)
proof (induction idx arbitrary: prob h)
  case Nil
  show ?case by simp
next
  case (Cons i rest)
  obtain r prob' h' where s: "f (get_mat vg h ! i) prob h = ((r, prob'), h')"
    by (metis surj_pair)
  from f[OF Cons.prems, of "get_mat vg h ! i" prob] s
  have h': "\<forall>b<k. cells h' b = cells h b" "next_addr h \<le> next_addr h'" by simp_all
  show ?case
  proof (cases r)
    case (Inl e)
    then show ?thesis using s h' by simp
  next
    case (Inr row)
    have k': "k \<le> next_addr h'" using Cons.prems h'(2) by simp
    from Cons.IH[OF k', of prob']
    have "(\<forall>b<k. cells (snd (map_solve_st f vg rest prob' h')) b = cells h' b) \<and>
         next_addr h' \<le> next_addr (snd (map_solve_st f vg rest prob' h'))" .
    then show ?thesis using s Inr h'
      by (cases "map_solve_st f vg rest prob' h'") (auto split: sum.splits)
  qed
qed

lemma vector_list_frame:
  assumes "k \<le> next_addr (snd r)"
  shows "(\<forall>b<k. cells (snd (vector_list r)) b = cells (snd r) b) \<and>
         next_addr (snd r) \<le> next_addr (snd (vector_list r))"
  using assms by (cases r) (auto simp: vector_list_def alloc_def split: sum.splits)

lemma foldl_set_item_row:
  assumes "cells h a = Some (Mat rows)"
  shows "cells (foldl (\<lambda>h z. set_item a i (kf z) (g z) h) h zs) a =
         Some (Mat (rows[i := foldl (\<lambda>row z. row[kf z := g z]) (rows ! i) zs]))"
  using assms
proof (induction zs arbitrary: h rows)
  case Nil
  then show ?case by simp
next
  case (Cons z zs)
  let ?rows' = "rows[i := (rows ! i)[kf z := g z]]"
  have c: "cells (set_item a i (kf z) (g z) h) a = Some (Mat ?rows')"
    using Cons.prems by (simp add: set_item_def)
  have "cells (foldl (\<lambda>h z. set_item a i (kf z) (g z) h) (set_item a i (kf z) (g z) h) zs) a =
         Some (Mat (?rows'[i := foldl (\<lambda>row z. row[kf z := g z]) (?rows' ! i) zs]))"
    by (rule Cons.IH[OF c])
  moreover have "?rows'[i := foldl (\<lambda>row z. row[kf z := g z]) (?rows' ! i) zs]
               = rows[i := foldl (\<lambda>row z. row[kf z := g z]) ((rows ! i)[kf z := g z]) zs]"
  proof (cases "i < length rows")
    case True
    then show ?thesis by simp
  next
    case False
    then show ?thesis by (simp add: list_update_beyond)
  qed
  ultimately show ?case by simp
qed

lemma fill_row_st_row:
  assumes "cells h a = Some (Mat rows)" "i < length rows" "rows ! i = replicate (length n) nan"
  shows "cells (fill_row_st a n fc ra h (i, ops)) a = Some (Mat (rows[i := fill_row nan n fc ra ops]))"
proof -
  let ?h1 = "foldl (\<lambda>h z. set_item a i (fst z) ((snd z) (n ! fst z)) h) h (zip fc ops)"
  let ?r1 = "foldl (\<lambda>row z. row[fst z := (snd z) (n ! fst z)]) (rows ! i) (zip fc ops)"
  have c1: "cells ?h1 a = Some (Mat (rows[i := ?r1]))"
    by (rule foldl_set_item_row[OF assms(1)])
  have "cells (foldl (\<lambda>h z. set_item a i (id z) (rint (n ! z)) h) ?h1 ra) a =
        Some (Mat ((rows[i := ?r1])[i := foldl (\<lambda>row z. row[id z := rint (n ! z)]) ((rows[i := ?r1]) ! i) ra]))"
    by (rule foldl_set_item_row[OF c1])
  then show ?thesis
    using assms(2,3) by (simp add: fill_row_st_def fill_row_def Let_def case_prod_unfold)
qed

lemma foldl_fill_row_st_rows:
  assumes "cells h a = Some (Mat (pre @ replicate (length L) (replicate (length n) nan)))"
    and "length pre = off"
  shows "cells (foldl (fill_row_st a n fc ra) h (enumerate off L)) a =
         Some (Mat (pre @ map (fill_row nan n fc ra) L))"
  using assms
proof (induction L arbitrary: pre off h)
  case Nil
  then show ?case by simp
next
  case (Cons ops L)
  let ?row0 = "replicate (length n) nan"
  let ?rows = "pre @ replicate (length (ops # L)) ?row0"
  have i: "off < length ?rows" "?rows ! off = ?row0"
    using Cons.prems(2) by (simp_all add: nth_append)
  have "cells (fill_row_st a n fc ra h (off, ops)) a = Some (Mat (?rows[off := fill_row nan n fc ra ops]))"
    by (rule fill_row_st_row[OF Cons.prems(1) i])
  moreover have "?rows[off := fill_row nan n fc ra ops]
       = (pre @ [fill_row nan n fc ra ops]) @ replicate (length L) ?row0"
    using Cons.prems(2) by (simp add: list_update_append)
  ultimately have c: "cells (fill_row_st a n fc ra h (off, ops)) a
       = Some (Mat ((pre @ [fill_row nan n fc ra ops]) @ replicate (length L) ?row0))" by simp
  have "cells (foldl (fill_row_st a n fc ra) (fill_row_st a n fc ra h (off, ops)) (enumerate (Suc off) L)) a =
         Some (Mat ((pre @ [fill_row nan n fc ra ops]) @ map (fill_row nan n fc ra) L))"
    by (rule Cons.IH[OF c]) (simp add: Cons.prems(2))
  then show ?case by simp
qed

lemma candidate_rows_st_content:
  "get_mat (fst (candidate_rows_st nan n fc ra h)) (snd (candidate_rows_st nan n fc ra h))
   = candidate_rows nan n fc ra"
proof -
  let ?L = "product [np_floor, np_ceil] (length fc)"
  let ?a = "next_addr h"
  let ?h1 = "h\<lparr>cells := (cells h)(?a \<mapsto> Mat (replicate (2 ^ length fc) (replicate (length n) nan))),
               next_addr := Suc ?a\<rparr>"
  have len: "length ?L = 2 ^ length fc" by (simp add: length_product numeral_2_eq_2)
  have "cells ?h1 ?a = Some (Mat ([] @ replicate (length ?L) (replicate (length n) nan)))"
    by (simp add: len)
  then have "cells (foldl (fill_row_st ?a n fc ra) ?h1 (enumerate 0 ?L)) ?a =
         Some (Mat ([] @ map (fill_row nan n fc ra) ?L))"
    by (rule foldl_fill_row_st_rows) simp
  then show ?thesis
    by (simp add: candidate_rows_st_def candidate_rows_def Let_def alloc_def get_mat_def)
qed

lemma get_mat_frame:
  "a < k \<Longrightarrow> \<forall>b<k. cells h' b = cells h b \<Longrightarrow> get_mat a h' = get_mat a h"
  by (simp add: get_mat_def)

lemma compute_argmin_open_st_refines:
  fixes threshold cdd_inv
  assumes "cdd_inv < next_addr h"
  shows "fst (compute_argmin_open_st nan n threshold cdd_inv h)
         = compute_argmin_open nan n threshold (get_mat cdd_inv h)"
proof -
  let ?fc = "filter (\<lambda>j. \<bar>map (\<lambda>x. x - np_floor x) n ! j - 1 / 2\<bar> < threshold / 2) [0..<length n]"
  let ?ra = "filter (\<lambda>j. j \<notin> set ?fc) [0..<length n]"
  let ?c = "candidate_rows_st nan n ?fc ?ra h"
  have "\<forall>b<next_addr h. cells (snd ?c) b = cells h b"
    using candidate_rows_st_frame[of "next_addr h" h nan n ?fc ?ra] by simp
  then have g: "get_mat cdd_inv (snd ?c) = get_mat cdd_inv h"
    using assms by (intro get_mat_frame)
  show ?thesis
    by (simp only: compute_argmin_open_st_def compute_argmin_open_def Let_def case_prod_unfold
        candidate_rows_st_content g fst_conv snd_conv)
qed

lemma compute_argmin_closed_st_refines:
  fixes threshold cdd_inv
  assumes "cdd_inv < next_addr h"
  shows "fst (compute_argmin_closed_st bf nan n threshold cdd_inv nc h)
         = compute_argmin_closed bf nan n threshold (get_mat cdd_inv h) nc"
proof (cases nc)
  case None
  let ?ti = "max (searchsorted_right (sort (map (\<lambda>r. \<bar>r - 1 / 2\<bar>) (map (\<lambda>x. x - np_floor x) n))) (threshold / 2))
                 (min (length (get_mat cdd_inv h)) 3)"
  let ?fc = "filter (\<lambda>a. a < ?ti) [0..<length n]"
  let ?ra = "filter (\<lambda>j. j \<notin> set ?fc) [0..<length n]"
  let ?c = "candidate_rows_st nan n ?fc ?ra h"
  have "\<forall>b<next_addr h. cells (snd ?c) b = cells h b"
    using candidate_rows_st_frame[of "next_addr h" h nan n ?fc ?ra] by simp
  then have g: "get_mat cdd_inv (snd ?c) = get_mat cdd_inv h"
    using assms by (intro get_mat_frame)
  show ?thesis
    by (simp only: None compute_argmin_closed_st_def compute_argmin_closed_def Let_def case_prod_unfold
        candidate_rows_st_content g fst_conv snd_conv option.case)
next
  case (Some c)
  then show ?thesis
    by (simp add: compute_argmin_closed_st_def compute_argmin_closed_def Let_def split: sum.splits)
qed

lemma ground_state_open_0d_st_refines:
  fixes threshold cdd_inv cgd
  assumes "cgd < next_addr h" "cdd_inv < next_addr h"
  shows "fst (ground_state_open_0d_st lib nan v cgd cdd_inv threshold prob h)
         = ground_state_open_0d lib nan v (get_mat cgd h) (get_mat cdd_inv h) threshold prob"
  using compute_argmin_open_st_refines[OF assms(2)]
  by (simp add: ground_state_open_0d_st_def ground_state_open_0d_def Let_def case_prod_unfold
      split: sum.splits)

lemma ground_state_closed_0d_st_refines:
  fixes threshold cdd_inv cgd
  assumes "cgd < next_addr h" "cdd_inv < next_addr h"
  shows "fst (ground_state_closed_0d_st lib bf nan v nc cgd cdd_inv threshold prob h)
         = ground_state_closed_0d lib bf nan v nc (get_mat cgd h) (get_mat cdd_inv h) threshold prob"
  using compute_argmin_closed_st_refines[OF assms(2)]
  by (simp add: ground_state_closed_0d_st_def ground_state_closed_0d_def Let_def case_prod_unfold
      split: sum.splits)

lemma map_solve_st_refines:
  assumes fr: "\<And>v prob h. k \<le> next_addr h \<Longrightarrow>
                (\<forall>b<k. cells (snd (f v prob h)) b = cells h b) \<and> next_addr h \<le> next_addr (snd (f v prob h))"
    and rf: "\<And>v prob h. k \<le> next_addr h \<Longrightarrow> \<forall>b<k. cells h b = cells h0 b \<Longrightarrow> fst (f v prob h) = g v prob"
    and "k \<le> next_addr h" "\<forall>b<k. cells h b = cells h0 b" "vg < k"
  shows "fst (map_solve_st f vg idx prob h) = map_solve g (map (\<lambda>i. get_mat vg h0 ! i) idx) prob"
  using assms(3,4)
proof (induction idx arbitrary: prob h)
  case Nil
  show ?case by simp
next
  case (Cons i rest)
  obtain r prob' h' where s: "f (get_mat vg h ! i) prob h = ((r, prob'), h')"
    by (metis surj_pair)
  have gv: "get_mat vg h = get_mat vg h0"
    using assms(5) Cons.prems(2) by (intro get_mat_frame)
  from rf[OF Cons.prems, of "get_mat vg h ! i" prob] s
  have g: "g (get_mat vg h0 ! i) prob = (r, prob')" by (simp add: gv)
  from fr[OF Cons.prems(1), of "get_mat vg h ! i" prob] s
  have h': "\<forall>b<k. cells h' b = cells h b" "next_addr h \<le> next_addr h'" by simp_all
  show ?case
  proof (cases r)
    case (Inl e)
    then show ?thesis using s g by simp
  next
    case (Inr row)
    have k': "k \<le> next_addr h'" using Cons.prems(1) h'(2) by simp
    have c': "\<forall>b<k. cells h' b = cells h0 b" using h'(1) Cons.prems(2) by simp
    from Cons.IH[OF k' c', of prob']
    have "fst (map_solve_st f vg rest prob' h') = map_solve g (map (\<lambda>i. get_mat vg h0 ! i) rest) prob'" .
    then show ?thesis using s g Inr
      by (cases "map_solve_st f vg rest prob' h'") (auto split: sum.splits)
  qed
qed

lemma vector_list_result:
  "(case fst r of
      Inl e \<Rightarrow> fst (vector_list r) = Inl e
    | Inr rows \<Rightarrow> fst (vector_list r) = Inr (next_addr (snd r)) \<and>
                  get_mat (next_addr (snd r)) (snd (vector_list r)) = rows)"
  by (cases r) (auto simp: vector_list_def alloc_def get_mat_def split: sum.splits)

lemma ground_state_open_python_st_frame:
  fixes threshold cdd_inv cgd
  shows "\<forall>b<next_addr h.
           cells (snd (ground_state_open_python_st lib nan vg cgd cdd_inv threshold h)) b = cells h b"
proof (cases "init_osqp_problem lib (get_mat cdd_inv h) (get_mat cgd h) None")
  case (Inl e)
  then show ?thesis by (simp add: ground_state_open_python_st_def)
next
  case (Inr prob)
  let ?r = "map_solve_st (\<lambda>v. ground_state_open_0d_st lib nan v cgd cdd_inv threshold)
               vg [0..<length (get_mat vg h)] prob h"
  have m: "(\<forall>b<next_addr h. cells (snd ?r) b = cells h b) \<and> next_addr h \<le> next_addr (snd ?r)"
    by (rule map_solve_st_frame) (simp_all add: ground_state_open_0d_st_frame)
  then have "\<forall>b<next_addr h. cells (snd (vector_list ?r)) b = cells (snd ?r) b"
    using vector_list_frame[of "next_addr h" ?r] by simp
  then show ?thesis using m by (simp add: ground_state_open_python_st_def Inr)
qed

lemma ground_state_closed_python_st_frame:
  fixes threshold cdd_inv cgd cdd
  shows "\<forall>b<next_addr h.
           cells (snd (ground_state_closed_python_st lib bf nan vg nc cgd cdd cdd_inv threshold h)) b
           = cells h b"
proof (cases "init_osqp_problem lib (get_mat cdd_inv h) (get_mat cgd h) (Some nc)")
  case (Inl e)
  then show ?thesis by (simp add: ground_state_closed_python_st_def)
next
  case (Inr prob)
  let ?r = "map_solve_st (\<lambda>v. ground_state_closed_0d_st lib bf nan v nc cgd cdd_inv threshold)
               vg [0..<length (get_mat vg h)] prob h"
  have m: "(\<forall>b<next_addr h. cells (snd ?r) b = cells h b) \<and> next_addr h \<le> next_addr (snd ?r)"
    by (rule map_solve_st_frame) (simp_all add: ground_state_closed_0d_st_frame)
  then have "\<forall>b<next_addr h. cells (snd (vector_list ?r)) b = cells (snd ?r) b"
    using vector_list_frame[of "next_addr h" ?r] by simp
  then show ?thesis using m by (simp add: ground_state_closed_python_st_def Inr)
qed

text \<open>
  The program over the store computes what the program over values computes: the
  result of the batch is a new array that holds the rows of \<open>ground_state_open_python\<close>
  applied to the contents of the arrays passed in.
\<close>

lemma ground_state_open_python_st_refines:
  fixes threshold cdd_inv cgd
  assumes "vg < next_addr h" "cgd < next_addr h" "cdd_inv < next_addr h"
  shows "case ground_state_open_python lib nan (get_mat vg h) (get_mat cgd h) (get_mat cdd_inv h) threshold of
           Inl e \<Rightarrow> fst (ground_state_open_python_st lib nan vg cgd cdd_inv threshold h) = Inl e
         | Inr rows \<Rightarrow>
             (\<exists>a\<ge>next_addr h.
                fst (ground_state_open_python_st lib nan vg cgd cdd_inv threshold h) = Inr a \<and>
                get_mat a (snd (ground_state_open_python_st lib nan vg cgd cdd_inv threshold h)) = rows)"
proof (cases "init_osqp_problem lib (get_mat cdd_inv h) (get_mat cgd h) None")
  case (Inl e)
  then show ?thesis
    by (simp add: ground_state_open_python_st_def ground_state_open_python_def)
next
  case (Inr prob)
  let ?f = "\<lambda>v. ground_state_open_0d_st lib nan v cgd cdd_inv threshold"
  let ?g = "\<lambda>v. ground_state_open_0d lib nan v (get_mat cgd h) (get_mat cdd_inv h) threshold"
  let ?r = "map_solve_st ?f vg [0..<length (get_mat vg h)] prob h"
  have "fst ?r = map_solve ?g (map (\<lambda>i. get_mat vg h ! i) [0..<length (get_mat vg h)]) prob"
  proof (rule map_solve_st_refines[where k = "next_addr h" and ?h0.0 = h])
    fix v and prob :: 'a and h' :: store
    assume "next_addr h \<le> next_addr h'"
    then show "(\<forall>b<next_addr h. cells (snd (?f v prob h')) b = cells h' b) \<and>
               next_addr h' \<le> next_addr (snd (?f v prob h'))"
      by (rule ground_state_open_0d_st_frame)
  next
    fix v and prob :: 'a and h' :: store
    assume k: "next_addr h \<le> next_addr h'" and c: "\<forall>b<next_addr h. cells h' b = cells h b"
    have "fst (?f v prob h') = ground_state_open_0d lib nan v (get_mat cgd h') (get_mat cdd_inv h') threshold prob"
      using assms k by (intro ground_state_open_0d_st_refines) simp_all
    moreover have "get_mat cgd h' = get_mat cgd h" "get_mat cdd_inv h' = get_mat cdd_inv h"
      using assms c by (simp_all add: get_mat_frame[where k = "next_addr h"])
    ultimately show "fst (?f v prob h') = ?g v prob" by simp
  qed (simp_all add: assms)
  then have e: "fst ?r = map_solve ?g (get_mat vg h) prob" by (simp add: map_nth)
  have n: "next_addr h \<le> next_addr (snd ?r)"
    using map_solve_st_frame[of "next_addr h" ?f h vg "[0..<length (get_mat vg h)]" prob]
    by (simp add: ground_state_open_0d_st_frame)
  show ?thesis
    using vector_list_result[of ?r] e n
    by (auto simp: ground_state_open_python_st_def ground_state_open_python_def Inr split: sum.splits)
qed

text \<open>
  Claim C10. Let \<open>cgd\<close>, \<open>cdd\<close> and \<open>cdd_inv\<close> be arrays of the store when a batch solve
  starts. After \<open>ground_state_open_python\<close> and after \<open>ground_state_closed_python\<close>,
  whether the batch ends with a result or with an exception, the three arrays are
  what they were: the only assignments into an array go to \<open>n_list\<close>, which the call
  itself created.
\<close>

theorem capacitance_matrices_unchanged:
  fixes threshold cdd_inv cgd cdd
  assumes "cgd < next_addr h" and "cdd < next_addr h" and "cdd_inv < next_addr h"
  shows
  "cells (snd (ground_state_open_python_st lib nan vg cgd cdd_inv threshold h)) cgd = cells h cgd \<and>
   cells (snd (ground_state_open_python_st lib nan vg cgd cdd_inv threshold h)) cdd = cells h cdd \<and>
   cells (snd (ground_state_open_python_st lib nan vg cgd cdd_inv threshold h)) cdd_inv
     = cells h cdd_inv \<and>
   cells (snd (ground_state_closed_python_st lib brute_force nan vg n_charge cgd cdd cdd_inv threshold h)) cgd
     = cells h cgd \<and>
   cells (snd (ground_state_closed_python_st lib brute_force nan vg n_charge cgd cdd cdd_inv threshold h)) cdd
     = cells h cdd \<and>
   cells (snd (ground_state_closed_python_st lib brute_force nan vg n_charge cgd cdd cdd_inv threshold h)) cdd_inv
     = cells h cdd_inv"
  using assms
    ground_state_open_python_st_frame[of h lib nan vg cgd cdd_inv threshold]
    ground_state_closed_python_st_frame[of h lib brute_force nan vg n_charge cgd cdd cdd_inv threshold]
  by simp

text \<open>
  A store with \<open>cgd\<close>, \<open>cdd\<close>, \<open>cdd_inv\<close> and a batch of one voltage vector at the
  addresses 0 to 3; the solver returns the relaxed occupation \<open>[1/2, 1/4]\<close>.
\<close>

theorem capacitance_matrices_unchanged_witness:
  "(0 :: nat) < 4 \<and> (1 :: nat) < 4 \<and> (2 :: nat) < 4 \<and>
   cells (snd (ground_state_open_python_st
       \<lparr>osqp_setup = (\<lambda>P q A l u. ()), osqp_update = (\<lambda>p q. p),
        osqp_solve = (\<lambda>p. ([1 / 2, 1 / 4], p))\<rparr>
       0 3 0 2 (1 / 4)
       \<lparr>cells = [0 \<mapsto> Mat [[1, 0], [0, 1]], 1 \<mapsto> Mat [[1, 0], [0, 1]],
                 2 \<mapsto> Mat [[1, 0], [0, 1]], 3 \<mapsto> Mat [[0, 0]]],
        next_addr = 4\<rparr>)) 2
   = Some (Mat [[1, 0], [0, 1]]) \<and>
   (\<exists>a. fst (ground_state_open_python_st
       \<lparr>osqp_setup = (\<lambda>P q A l u. ()), osqp_update = (\<lambda>p q. p),
        osqp_solve = (\<lambda>p. ([1 / 2, 1 / 4], p))\<rparr>
       0 3 0 2 (1 / 4)
       \<lparr>cells = [0 \<mapsto> Mat [[1, 0], [0, 1]], 1 \<mapsto> Mat [[1, 0], [0, 1]],
                 2 \<mapsto> Mat [[1, 0], [0, 1]], 3 \<mapsto> Mat [[0, 0]]],
        next_addr = 4\<rparr>) = Inr a \<and>
      get_mat a (snd (ground_state_open_python_st
       \<lparr>osqp_setup = (\<lambda>P q A l u. ()), osqp_update = (\<lambda>p q. p),
        osqp_solve = (\<lambda>p. ([1 / 2, 1 / 4], p))\<rparr>
       0 3 0 2 (1 / 4)
       \<lparr>cells = [0 \<mapsto> Mat [[1, 0], [0, 1]], 1 \<mapsto> Mat [[1, 0], [0, 1]],
                 2 \<mapsto> Mat [[1, 0], [0, 1]], 3 \<mapsto> Mat [[0, 0]]],
        next_addr = 4\<rparr>)) = [[0, 0]])"
proof -
  let ?lib = "\<lparr>osqp_setup = (\<lambda>P q A l u. ()), osqp_update = (\<lambda>p q. p),
        osqp_solve = (\<lambda>p. ([1 / 2, 1 / 4 :: real], p))\<rparr>"
  let ?h = "\<lparr>cells = [0 \<mapsto> Mat [[1, 0], [0, 1]], 1 \<mapsto> Mat [[1, 0], [0, 1]],
                 2 \<mapsto> Mat [[1, 0], [0, 1]], 3 \<mapsto> Mat [[0, 0]]],
        next_addr = 4\<rparr>"
  have a: "(0 :: nat) < next_addr ?h" "(1 :: nat) < next_addr ?h" "(2 :: nat) < next_addr ?h"
    by simp_all
  from capacitance_matrices_unchanged[OF a, of ?lib 0 3 "1 / 4"]
  have c: "cells (snd (ground_state_open_python_st ?lib 0 3 0 2 (1 / 4) ?h)) 2 = Some (Mat [[1, 0], [0, 1]])"
    by simp
  have v: "ground_state_open_python ?lib 0 (get_mat 3 ?h) (get_mat 0 ?h) (get_mat 2 ?h) (1 / 4)
           = Inr [[0, 0]]"
    by (simp add: ground_state_open_python_def init_osqp_problem_def linear_term_def matmul_def
        matvec_def n_cols_def ground_state_open_0d_def get_mat_def
        compute_argmin_open_def candidate_rows_def fill_row_def select_argmin_def
        free_energy_def quad_form_def argmin_def rint_def np_floor_def np_ceil_def Let_def
        nth_Cons' ceiling_half)
  have "(3 :: nat) < next_addr ?h" by simp
  from ground_state_open_python_st_refines[OF this a(1) a(3), of ?lib 0 "1 / 4"] v
  have f: "\<exists>a. fst (ground_state_open_python_st ?lib 0 3 0 2 (1 / 4) ?h) = Inr a \<and>
      get_mat a (snd (ground_state_open_python_st ?lib 0 3 0 2 (1 / 4) ?h)) = [[0, 0]]"
    by auto
  show ?thesis using c f by simp
qed

end
